theory Spec2Isabelle
  imports Main "HOL-Library.Word"
begin

unbundle bit_operations_syntax

section \<open>Platform values shared by the modules\<close>

text \<open>
  A JavaScript string is modelled by its UTF-8 encoding: a \<^typ>\<open>string\<close> is the list of
  bytes that \<^verbatim>\<open>Buffer.from(s, 'utf8')\<close> produces, so \<^verbatim>\<open>bodyBuf.length\<close> is the
  length of the list. On such strings \<^verbatim>\<open>Buffer.from(_, 'utf8')\<close> and
  \<^verbatim>\<open>buf.toString('utf8')\<close> are the byte-wise conversions below. Bytes that are not
  well-formed UTF-8, which \<^verbatim>\<open>toString\<close> would decode with replacement characters, are
  outside this model of text.
\<close>

type_synonym byte = "8 word"
type_synonym buffer = "byte list"

text \<open>
  What the code throws or rejects with: the range error of the Buffer accessors, the type
  error of a property access on a non-object, and \<^verbatim>\<open>new Error(message)\<close>.
\<close>

datatype error = RangeError | TypeError | Error string

definition em_dash :: string where
  "em_dash = [CHR 0xE2, CHR 0x80, CHR 0x94]"

definition is_prefix :: "string \<Rightarrow> string \<Rightarrow> bool" where
  "is_prefix w s = (take (length w) s = w)"

section \<open>Source RCON packet codec\<close>

definition SERVERDATA_AUTH :: int where "SERVERDATA_AUTH = 3"
definition SERVERDATA_AUTH_RESPONSE :: int where "SERVERDATA_AUTH_RESPONSE = 2"
definition SERVERDATA_EXECCOMMAND :: int where "SERVERDATA_EXECCOMMAND = 2"
definition SERVERDATA_RESPONSE_VALUE :: int where "SERVERDATA_RESPONSE_VALUE = 0"
definition SENTINEL_ID :: int where "SENTINEL_ID = 9999"

subsection \<open>The Buffer operations the codec uses\<close>

definition buffer_from :: "string \<Rightarrow> buffer" where
  "buffer_from s = map (\<lambda>c. word_of_nat (of_char c)) s"

definition buffer_toString :: "buffer \<Rightarrow> string" where
  "buffer_toString b = map (\<lambda>x. char_of (unat x)) b"

definition buffer_alloc :: "nat \<Rightarrow> buffer" where
  "buffer_alloc n = replicate n 0"

text \<open>The four little-endian bytes of a 32-bit two's complement value.\<close>

definition int32_bytes :: "int \<Rightarrow> buffer" where
  "int32_bytes v =
     (let w = (word_of_int v :: 32 word)
      in [ucast w, ucast (drop_bit 8 w), ucast (drop_bit 16 w), ucast (drop_bit 24 w)])"

definition bytes_int32 :: "byte \<Rightarrow> byte \<Rightarrow> byte \<Rightarrow> byte \<Rightarrow> int" where
  "bytes_int32 b0 b1 b2 b3 =
     sint ((ucast b0 :: 32 word) OR push_bit 8 (ucast b1) OR push_bit 16 (ucast b2)
           OR push_bit 24 (ucast b3))"

definition buffer_write :: "buffer \<Rightarrow> nat \<Rightarrow> buffer \<Rightarrow> buffer" where
  "buffer_write buf off bs = take off buf @ bs @ drop (off + length bs) buf"

text \<open>
  \<^verbatim>\<open>buf.writeInt32LE(value, offset)\<close> throws a range error when the value is not a signed
  32-bit integer or when the four bytes do not fit in the buffer.
\<close>

definition writeInt32LE :: "buffer \<Rightarrow> int \<Rightarrow> nat \<Rightarrow> error + buffer" where
  "writeInt32LE buf v off =
     (if v < - (2 ^ 31) \<or> v > 2 ^ 31 - 1 then Inl RangeError
      else if off + 4 > length buf then Inl RangeError
      else Inr (buffer_write buf off (int32_bytes v)))"

text \<open>\<^verbatim>\<open>buf.readInt32LE(offset)\<close> throws a range error when it would read past the end.\<close>

definition readInt32LE :: "buffer \<Rightarrow> nat \<Rightarrow> error + int" where
  "readInt32LE buf off =
     (if off + 4 > length buf then Inl RangeError
      else Inr (bytes_int32 (buf ! off) (buf ! (off + 1)) (buf ! (off + 2)) (buf ! (off + 3))))"

text \<open>
  \<^verbatim>\<open>source.copy(target, targetStart)\<close> copies as many bytes as fit; the codec calls it with
  \<open>targetStart = 12\<close> on a buffer of at least 14 bytes.
\<close>

definition buffer_copy :: "buffer \<Rightarrow> buffer \<Rightarrow> nat \<Rightarrow> buffer" where
  "buffer_copy src target targetStart =
     buffer_write target targetStart (take (length target - targetStart) src)"

text \<open>
  \<^verbatim>\<open>buf.slice(start, end)\<close>: a negative offset counts from the end of the buffer, every
  offset is clamped to the buffer, and an end before the start gives the empty buffer.
\<close>

definition adjustOffset :: "int \<Rightarrow> nat \<Rightarrow> nat" where
  "adjustOffset offset len =
     (if offset = 0 then 0
      else if offset < 0 then (if offset + int len > 0 then nat (offset + int len) else 0)
      else if offset < int len then nat offset
      else len)"

definition buffer_slice :: "buffer \<Rightarrow> int \<Rightarrow> int \<Rightarrow> buffer" where
  "buffer_slice buf start end =
     (let s = adjustOffset start (length buf);
          e = adjustOffset end (length buf);
          newLength = (if e > s then e - s else 0)
      in take newLength (drop s buf))"

subsection \<open>encodePacket and decodePacket\<close>

definition encodePacket :: "int \<Rightarrow> int \<Rightarrow> string \<Rightarrow> error + buffer" where
  "encodePacket ident type body =
     (let bodyBuf = buffer_from body;
          sz = 4 + 4 + length bodyBuf + 1 + 1;
          packet = buffer_alloc (4 + sz)
      in case writeInt32LE packet (int sz) 0 of
           Inl e \<Rightarrow> Inl e
         | Inr packet1 \<Rightarrow>
             (case writeInt32LE packet1 ident 4 of
                Inl e \<Rightarrow> Inl e
              | Inr packet2 \<Rightarrow>
                  (case writeInt32LE packet2 type 8 of
                     Inl e \<Rightarrow> Inl e
                   | Inr packet3 \<Rightarrow>
                       (let packet4 = buffer_copy bodyBuf packet3 12;
                            packet5 = packet4[12 + length bodyBuf := 0];
                            packet6 = packet5[12 + length bodyBuf + 1 := 0]
                        in Inr packet6))))"

record packet =
  pkt_id :: int
  pkt_type :: int
  pkt_body :: string
  totalLength :: int

definition decodePacket :: "buffer \<Rightarrow> error + packet option" where
  "decodePacket buf =
     (if length buf < 4 then Inr None
      else case readInt32LE buf 0 of
             Inl e \<Rightarrow> Inl e
           | Inr sz \<Rightarrow>
               (let total = 4 + sz
                in if int (length buf) < total then Inr None
                   else case readInt32LE buf 4 of
                          Inl e \<Rightarrow> Inl e
                        | Inr ident \<Rightarrow>
                            (case readInt32LE buf 8 of
                               Inl e \<Rightarrow> Inl e
                             | Inr type \<Rightarrow>
                                 (let bodyEnd = total - 2;
                                      body = buffer_toString (buffer_slice buf 12 bodyEnd)
                                  in Inr (Some \<lparr>pkt_id = ident, pkt_type = type,
                                                  pkt_body = body, totalLength = total\<rparr>)))))"


section \<open>Promises, events and effects of the two clients\<close>

text \<open>
  A promise created by \<^verbatim>\<open>new Promise((resolve, reject) => ...)\<close> is identified by a number;
  calling the \<^verbatim>\<open>resolve\<close> or \<^verbatim>\<open>reject\<close> closure of promise \<open>p\<close> is the effect
  \<open>Resolve p v\<close> or \<open>Reject p e\<close>. What a handler does to the outside world is the list of
  its effects, in program order.
\<close>

type_synonym promise = nat

datatype event =
    Authenticated
  | AuthFailed
  | Response int string
  | ServerMessage string string
  | ErrorEvent error
  | CloseEvent

datatype effect =
    Resolve promise string
  | ResolveVoid promise
  | Reject promise error
  | Emit event
  | SocketWrite buffer
  | SocketDestroy
  | WsSend int string string
  | WsTerminate
  | SetTimeout int promise
  | ClearTimeout promise
  | WsCreate string
  | SetConnectTimeout promise

text \<open>
  A JavaScript \<^verbatim>\<open>Map\<close> keeps its keys in insertion order: it is an association list in which
  \<^verbatim>\<open>set\<close> on a present key replaces the value in place and on a new key appends.
\<close>

fun map_set :: "'k \<Rightarrow> 'v \<Rightarrow> ('k \<times> 'v) list \<Rightarrow> ('k \<times> 'v) list" where
  "map_set k v [] = [(k, v)]"
| "map_set k v ((k', v') # m) = (if k' = k then (k, v) # m else (k', v') # map_set k v m)"

definition map_has :: "'k \<Rightarrow> ('k \<times> 'v) list \<Rightarrow> bool" where
  "map_has k m = (map_of m k \<noteq> None)"

definition map_get :: "'k \<Rightarrow> ('k \<times> 'v) list \<Rightarrow> 'v option" where
  "map_get k m = map_of m k"

definition map_delete :: "'k \<Rightarrow> ('k \<times> 'v) list \<Rightarrow> ('k \<times> 'v) list" where
  "map_delete k m = filter (\<lambda>kv. fst kv \<noteq> k) m"

section \<open>Binary RCON client (RconConnection)\<close>

record pending_entry =
  body :: string
  resolver :: promise

text \<open>
  \<open>socket\<close> is \<open>None\<close> for \<^verbatim>\<open>null\<close> and \<open>Some d\<close> for a socket whose \<^verbatim>\<open>destroyed\<close> flag
  is \<open>d\<close>; \<open>pendingAuth\<close> holds the promise of the \<^verbatim>\<open>connect()\<close> call that awaits the
  authentication response.
\<close>

record rcon_connection =
  socket :: "bool option"
  recvBuf :: buffer
  requestId :: nat
  authenticated :: bool
  pendingAuth :: "promise option"
  pending :: "(int \<times> pending_entry) list"

definition connected :: "rcon_connection \<Rightarrow> bool" where
  "connected c = (case socket c of None \<Rightarrow> False | Some destroyed \<Rightarrow> \<not> destroyed)"

definition nextId :: "rcon_connection \<Rightarrow> rcon_connection \<times> int" where
  "nextId c = (let r = (requestId c mod 9000) + 1 in (c\<lparr>requestId := r\<rparr>, int r))"

definition sendRaw :: "rcon_connection \<Rightarrow> buffer \<Rightarrow> effect list" where
  "sendRaw c buf = (if connected c then [SocketWrite buf] else [])"

text \<open>
  \<^verbatim>\<open>exec(command)\<close>, run for the promise \<open>p\<close> it returns. An exception of the executor
  (a packet that cannot be encoded) rejects the promise.
\<close>

definition rcon_exec :: "rcon_connection \<Rightarrow> promise \<Rightarrow> string \<Rightarrow> rcon_connection \<times> effect list" where
  "rcon_exec c p command =
     (if \<not> authenticated c then (c, [Reject p (Error ''Not authenticated'')])
      else
        let (c1, ident) = nextId c;
            c2 = c1\<lparr>pending := map_set ident \<lparr>body = [], resolver = p\<rparr> (pending c1)\<rparr>
        in case encodePacket ident SERVERDATA_EXECCOMMAND command of
             Inl e \<Rightarrow> (c2, [Reject p e])
           | Inr cmdPkt \<Rightarrow>
               (case encodePacket SENTINEL_ID SERVERDATA_RESPONSE_VALUE [] of
                  Inl e \<Rightarrow> (c2, sendRaw c2 cmdPkt @ [Reject p e])
                | Inr sentinelPkt \<Rightarrow>
                    (c2, sendRaw c2 cmdPkt @ sendRaw c2 sentinelPkt @ [SetTimeout ident p])))"

text \<open>The callback of the timer that \<^verbatim>\<open>exec\<close> sets for request \<open>ident\<close> and promise \<open>p\<close>.\<close>

definition rcon_exec_timeout :: "rcon_connection \<Rightarrow> int \<Rightarrow> promise \<Rightarrow> rcon_connection \<times> effect list" where
  "rcon_exec_timeout c ident p =
     (if map_has ident (pending c) then
        (case map_get ident (pending c) of
           None \<Rightarrow> (c, [])
         | Some entry \<Rightarrow>
             (c\<lparr>pending := map_delete ident (pending c)\<rparr>,
              [Resolve p (if body entry \<noteq> [] then body entry else ''(no response)'')]))
      else (c, []))"

definition rcon_destroy :: "rcon_connection \<Rightarrow> rcon_connection \<times> effect list" where
  "rcon_destroy c =
     (c\<lparr>socket := None, authenticated := False, recvBuf := [], pending := []\<rparr>,
      if socket c \<noteq> None then [SocketDestroy] else [])"

definition rcon_handlePacket :: "rcon_connection \<Rightarrow> packet \<Rightarrow> rcon_connection \<times> effect list" where
  "rcon_handlePacket c pkt =
     (let authPhase =
        (case pendingAuth c of
           None \<Rightarrow> None
         | Some ap \<Rightarrow>
             if pkt_type pkt = SERVERDATA_AUTH_RESPONSE then
               (if pkt_id pkt = - 1 then
                  (let c1 = c\<lparr>authenticated := False, pendingAuth := None\<rparr>;
                       (c2, es) = rcon_destroy c1
                   in Some (c2, [ClearTimeout ap, Emit AuthFailed,
                                 Reject ap (Error (''RCON authentication failed '' @ em_dash
                                                   @ '' bad password''))] @ es))
                else
                  Some (c\<lparr>authenticated := True, pendingAuth := None\<rparr>,
                        [ClearTimeout ap, Emit Authenticated, ResolveVoid ap]))
             else if pkt_type pkt = SERVERDATA_RESPONSE_VALUE \<and> pkt_id pkt = - 1 then Some (c, [])
             else if pkt_type pkt = SERVERDATA_RESPONSE_VALUE \<and> pkt_id pkt = 0 then Some (c, [])
             else None)
      in case authPhase of
           Some r \<Rightarrow> r
         | None \<Rightarrow>
             if pkt_id pkt = SENTINEL_ID then
               (case pending c of
                  [] \<Rightarrow> (c, [])
                | (ident, entry) # _ \<Rightarrow>
                    (c\<lparr>pending := map_delete ident (pending c)\<rparr>,
                     [Emit (Response ident (body entry)), Resolve (resolver entry) (body entry)]))
             else if pkt_type pkt = SERVERDATA_RESPONSE_VALUE \<and> map_has (pkt_id pkt) (pending c) then
               (case map_get (pkt_id pkt) (pending c) of
                  None \<Rightarrow> (c, [])
                | Some entry \<Rightarrow>
                    (c\<lparr>pending := map_set (pkt_id pkt) (entry\<lparr>body := body entry @ pkt_body pkt\<rparr>)
                                      (pending c)\<rparr>, []))
             else (c, []))"

text \<open>Packets handled one after the other, as the drain loop of \<^verbatim>\<open>_onData\<close> dispatches them.\<close>

fun rcon_handlePackets :: "rcon_connection \<Rightarrow> packet list \<Rightarrow> rcon_connection \<times> effect list" where
  "rcon_handlePackets c [] = (c, [])"
| "rcon_handlePackets c (pkt # pkts) =
     (let (c1, es1) = rcon_handlePacket c pkt;
          (c2, es2) = rcon_handlePackets c1 pkts
      in (c2, es1 @ es2))"

text \<open>The text that the frames of one request carry, in arrival order.\<close>

definition response_text :: "int \<Rightarrow> packet list \<Rightarrow> string" where
  "response_text ident frames =
     concat (map pkt_body
       (filter (\<lambda>f. pkt_type f = SERVERDATA_RESPONSE_VALUE \<and> pkt_id f = ident) frames))"

section \<open>JSON RCON client (RconWebSocket)\<close>

text \<open>
  An inbound message after \<^verbatim>\<open>JSON.parse\<close>: a field that is absent is \<open>None\<close>. An
  \<open>Identifier\<close> that is not an integer equals neither \<open>-1\<close> nor \<open>0\<close> nor a key of the
  pending table, so it behaves as an absent one.
\<close>

record ws_message =
  Identifier :: "int option"
  Message :: "string option"
  Type :: "string option"

datatype readyState = CONNECTING | OPEN | CLOSING | CLOSED

text \<open>\<open>ws\<close> is \<open>None\<close> for \<^verbatim>\<open>null\<close>, otherwise the ready state of the socket object.\<close>

record rcon_websocket =
  ws :: "readyState option"
  ws_requestId :: nat
  ws_authenticated :: bool
  ws_pending :: "(int \<times> promise) list"

definition ws_connected :: "rcon_websocket \<Rightarrow> bool" where
  "ws_connected c = (ws c = Some OPEN)"

definition ws_nextId :: "rcon_websocket \<Rightarrow> rcon_websocket \<times> int" where
  "ws_nextId c = (let r = (ws_requestId c mod 9000) + 1 in (c\<lparr>ws_requestId := r\<rparr>, int r))"

text \<open>\<^verbatim>\<open>value || fallback\<close> on a string that may be absent: the empty string is falsy.\<close>

definition or_string :: "string option \<Rightarrow> string \<Rightarrow> string" where
  "or_string v fallback = (case v of None \<Rightarrow> fallback | Some s \<Rightarrow> if s \<noteq> [] then s else fallback)"

definition timed_out_placeholder :: string where
  "timed_out_placeholder = ''(no response '' @ em_dash @ '' timed out)''"

definition ws_exec :: "rcon_websocket \<Rightarrow> promise \<Rightarrow> string \<Rightarrow> rcon_websocket \<times> effect list" where
  "ws_exec c p command =
     (if \<not> ws_connected c then (c, [Reject p (Error ''Not connected'')])
      else
        let (c1, ident) = ws_nextId c;
            c2 = c1\<lparr>ws_pending := map_set ident p (ws_pending c1)\<rparr>
        in (c2, [WsSend ident command ''rcon-htmx'', SetTimeout ident p]))"

definition ws_exec_timeout :: "rcon_websocket \<Rightarrow> int \<Rightarrow> promise \<Rightarrow> rcon_websocket \<times> effect list" where
  "ws_exec_timeout c ident p =
     (if map_has ident (ws_pending c) then
        (c\<lparr>ws_pending := map_delete ident (ws_pending c)\<rparr>, [Resolve p timed_out_placeholder])
      else (c, []))"

definition ws_destroy :: "rcon_websocket \<Rightarrow> rcon_websocket \<times> effect list" where
  "ws_destroy c =
     (c\<lparr>ws := None, ws_authenticated := False, ws_pending := []\<rparr>,
      if ws c \<noteq> None then [WsTerminate] else [])"

definition ws_handleMessage :: "rcon_websocket \<Rightarrow> ws_message \<Rightarrow> rcon_websocket \<times> effect list" where
  "ws_handleMessage c msg =
     (let ident = Identifier msg;
          body = or_string (Message msg) [];
          type = or_string (Type msg) ''Generic''
      in if ident = Some (- 1) \<or> ident = Some 0 then (c, [Emit (ServerMessage body type)])
         else case ident of
                None \<Rightarrow> (c, [Emit (ServerMessage body type)])
              | Some i \<Rightarrow>
                  if map_has i (ws_pending c) then
                    (case map_get i (ws_pending c) of
                       None \<Rightarrow> (c, [])
                     | Some entry \<Rightarrow>
                         (c\<lparr>ws_pending := map_delete i (ws_pending c)\<rparr>,
                          [Emit (Response i body), Resolve entry body]))
                  else (c, [Emit (ServerMessage body type)]))"

text \<open>
  The handlers that \<^verbatim>\<open>connect()\<close> registers on the socket, for the promise \<open>cp\<close> that this
  \<^verbatim>\<open>connect()\<close> call returned. The ready state is a property of the socket object: the
  socket is open when it emits \<^verbatim>\<open>open\<close>. \<open>code\<close> is the close code as the template
  string prints it.
\<close>

definition ws_on_open :: "rcon_websocket \<Rightarrow> promise \<Rightarrow> rcon_websocket \<times> effect list" where
  "ws_on_open c cp =
     (c\<lparr>ws := (case ws c of None \<Rightarrow> None | Some _ \<Rightarrow> Some OPEN), ws_authenticated := True\<rparr>,
      [ClearTimeout cp, Emit Authenticated, ResolveVoid cp])"

definition ws_on_error :: "rcon_websocket \<Rightarrow> promise \<Rightarrow> error \<Rightarrow> rcon_websocket \<times> effect list" where
  "ws_on_error c cp err =
     (c, [ClearTimeout cp, Emit (ErrorEvent err)]
         @ (if \<not> ws_authenticated c then [Reject cp err] else []))"

definition ws_on_close :: "rcon_websocket \<Rightarrow> promise \<Rightarrow> string \<Rightarrow> rcon_websocket \<times> effect list" where
  "ws_on_close c cp code =
     (let wasAuthed = ws_authenticated c;
          c1 = c\<lparr>ws_authenticated := False, ws := None\<rparr>;
          es1 = (if \<not> wasAuthed then
                   [Emit AuthFailed,
                    Reject cp (Error (''RCON connection rejected (code '' @ code @ '') '' @ em_dash
                                      @ '' check password''))]
                 else [Emit CloseEvent]);
          es2 = map (\<lambda>(ident, entry). Reject entry (Error ''Connection closed'')) (ws_pending c1)
      in (c1\<lparr>ws_pending := []\<rparr>, [ClearTimeout cp] @ es1 @ es2))"

text \<open>
  What can still happen to a client object once \<^verbatim>\<open>connect()\<close> has been called: the socket's
  events, calls of \<^verbatim>\<open>exec\<close> and \<^verbatim>\<open>destroy\<close>, and the timers of earlier \<^verbatim>\<open>exec\<close> calls.
\<close>

datatype ws_input =
    InOpen promise
  | InMessage ws_message
  | InError promise error
  | InClose promise string
  | InExec promise string
  | InTimeout int promise
  | InDestroy

fun ws_step :: "rcon_websocket \<Rightarrow> ws_input \<Rightarrow> rcon_websocket \<times> effect list" where
  "ws_step c (InOpen cp) = ws_on_open c cp"
| "ws_step c (InMessage msg) = ws_handleMessage c msg"
| "ws_step c (InError cp err) = ws_on_error c cp err"
| "ws_step c (InClose cp code) = ws_on_close c cp code"
| "ws_step c (InExec p command) = ws_exec c p command"
| "ws_step c (InTimeout ident p) = ws_exec_timeout c ident p"
| "ws_step c InDestroy = ws_destroy c"

fun ws_run :: "rcon_websocket \<Rightarrow> ws_input list \<Rightarrow> rcon_websocket \<times> effect list" where
  "ws_run c [] = (c, [])"
| "ws_run c (i # is) =
     (let (c1, es1) = ws_step c i;
          (c2, es2) = ws_run c1 is
      in (c2, es1 @ es2))"

text \<open>A promise is settled by an effect that calls its \<^verbatim>\<open>resolve\<close> or its \<^verbatim>\<open>reject\<close>.\<close>

fun settles :: "promise \<Rightarrow> effect \<Rightarrow> bool" where
  "settles p (Resolve q _) = (q = p)"
| "settles p (ResolveVoid q) = (q = p)"
| "settles p (Reject q _) = (q = p)"
| "settles p _ = False"

text \<open>The promise that an input brings with it (the one a new call creates).\<close>

fun input_promise :: "ws_input \<Rightarrow> promise option" where
  "input_promise (InOpen cp) = Some cp"
| "input_promise (InError cp _) = Some cp"
| "input_promise (InClose cp _) = Some cp"
| "input_promise (InExec p _) = Some p"
| "input_promise _ = None"


subsection \<open>Connecting again\<close>

text \<open>
  \<^verbatim>\<open>connect()\<close>, run for the promise \<open>cp\<close> it returns: a connected client resolves at once;
  otherwise the timer is set and a new socket replaces \<^verbatim>\<open>this._ws\<close>, whatever it was
  (also \<^verbatim>\<open>null\<close> after \<^verbatim>\<open>destroy()\<close>). \<open>url\<close> is the address that the template string
  builds from host, port and password. The request counter and the pending table are
  not touched.
\<close>

definition ws_connect :: "rcon_websocket \<Rightarrow> promise \<Rightarrow> string \<Rightarrow> rcon_websocket \<times> effect list" where
  "ws_connect c cp url =
     (if ws_connected c then (c, [ResolveVoid cp])
      else (c\<lparr>ws := Some CONNECTING\<rparr>, [SetConnectTimeout cp, WsCreate url]))"

text \<open>
  The callback of the timer that \<^verbatim>\<open>connect()\<close> sets: it terminates the socket, if there
  is one, and rejects. A terminated socket is closing, unless it was closed already;
  \<open>address\<close> is \<^verbatim>\<open>host:port\<close> as the template string prints it.
\<close>

definition ws_connect_timeout ::
  "rcon_websocket \<Rightarrow> promise \<Rightarrow> string \<Rightarrow> rcon_websocket \<times> effect list" where
  "ws_connect_timeout c cp address =
     (c\<lparr>ws := (case ws c of
                  None \<Rightarrow> None
                | Some CLOSED \<Rightarrow> Some CLOSED
                | Some _ \<Rightarrow> Some CLOSING)\<rparr>,
      (if ws c \<noteq> None then [WsTerminate] else [])
      @ [Reject cp (Error (''Connection timed out: '' @ address))])"

text \<open>
  Everything that can happen to a client object: calls of \<^verbatim>\<open>connect()\<close> and the timer of
  such a call, beside the inputs above.
\<close>

datatype ws_call =
    Connect promise string
  | ConnectTimeout promise string
  | Input ws_input

fun ws_call_step :: "rcon_websocket \<Rightarrow> ws_call \<Rightarrow> rcon_websocket \<times> effect list" where
  "ws_call_step c (Connect cp url) = ws_connect c cp url"
| "ws_call_step c (ConnectTimeout cp address) = ws_connect_timeout c cp address"
| "ws_call_step c (Input i) = ws_step c i"

fun ws_run_calls :: "rcon_websocket \<Rightarrow> ws_call list \<Rightarrow> rcon_websocket \<times> effect list" where
  "ws_run_calls c [] = (c, [])"
| "ws_run_calls c (i # is) =
     (let (c1, es1) = ws_call_step c i;
          (c2, es2) = ws_run_calls c1 is
      in (c2, es1 @ es2))"

fun call_promise :: "ws_call \<Rightarrow> promise option" where
  "call_promise (Connect cp _) = Some cp"
| "call_promise (ConnectTimeout cp _) = Some cp"
| "call_promise (Input i) = input_promise i"

text \<open>
  The identifiers that the calls of \<^verbatim>\<open>exec\<close> in a run are given: a call on a connected
  client takes the next identifier, a call on a client that is not connected takes none.
\<close>

fun ws_issued :: "rcon_websocket \<Rightarrow> ws_call list \<Rightarrow> int list" where
  "ws_issued c [] = []"
| "ws_issued c (i # is) =
     (case i of
        Input (InExec p command) \<Rightarrow> (if ws_connected c then [snd (ws_nextId c)] else [])
      | _ \<Rightarrow> [])
     @ ws_issued (fst (ws_call_step c i)) is"

text \<open>\<open>n\<close> calls of \<^verbatim>\<open>exec\<close> in a row, each with a promise of its own.\<close>

fun fresh_execs :: "nat \<Rightarrow> promise \<Rightarrow> string \<Rightarrow> ws_call list" where
  "fresh_execs 0 p command = []"
| "fresh_execs (Suc n) p command = Input (InExec p command) # fresh_execs n (Suc p) command"

section \<open>Default HTML formatter\<close>

text \<open>\<^verbatim>\<open>str.replace(/c/g, r)\<close> for a single character \<open>c\<close> and a replacement without patterns.\<close>

definition replace_all :: "char \<Rightarrow> string \<Rightarrow> string \<Rightarrow> string" where
  "replace_all c r str = concat (map (\<lambda>x. if x = c then r else [x]) str)"

definition escapeHtml :: "string \<Rightarrow> string" where
  \<open>escapeHtml str =
     replace_all (CHR 0x22) ''&quot;''
       (replace_all CHR ''>'' ''&gt;''
         (replace_all CHR ''<'' ''&lt;''
           (replace_all CHR ''&'' ''&amp;'' str)))\<close>

text \<open>
  Every \<^verbatim>\<open>&\<close> of a string begins one of the entities \<^verbatim>\<open>&amp;\<close>, \<^verbatim>\<open>&lt;\<close>, \<^verbatim>\<open>&gt;\<close>
  and \<^verbatim>\<open>&quot;\<close>.
\<close>

fun entities_only :: "string \<Rightarrow> bool" where
  "entities_only [] = True"
| "entities_only (c # cs) =
     ((if c = CHR ''&''
       then is_prefix ''amp;'' cs \<or> is_prefix ''lt;'' cs \<or> is_prefix ''gt;'' cs \<or> is_prefix ''quot;'' cs
       else True)
      \<and> entities_only cs)"

text \<open>\<^verbatim>\<open>text.split('\n')\<close>: the pieces between the separators, at least one piece.\<close>

fun split_on :: "char \<Rightarrow> string \<Rightarrow> string list" where
  "split_on c [] = [[]]"
| "split_on c (x # xs) =
     (if x = c then [] # split_on c xs
      else (case split_on c xs of
              [] \<Rightarrow> [[x]]
            | l # ls \<Rightarrow> (x # l) # ls))"

definition newline :: char where
  "newline = CHR 0x0A"

text \<open>
  \<^verbatim>\<open>toLowerCase()\<close> on the ASCII letters; no other character lowers to a letter of
  \<^verbatim>\<open>warning\<close> or \<^verbatim>\<open>error\<close>, the two strings the result is compared with.
\<close>

definition toLowerCase :: "string \<Rightarrow> string" where
  "toLowerCase s =
     map (\<lambda>c. if (65::nat) \<le> of_char c \<and> of_char c \<le> (90::nat) then char_of (of_char c + (32::nat)) else c) s"

text \<open>
  The \<^verbatim>\<open>meta\<close> object handed to a custom \<^verbatim>\<open>formatLine\<close>, and the options of
  \<^verbatim>\<open>createFormatter\<close>. The timestamp is read from the clock: it is a parameter.
\<close>

record meta =
  meta_type :: string
  meta_command :: "string option"
  meta_serverType :: "string option"
  meta_timestamp :: string

record formatter_options =
  targetId :: "string option"
  swapStyle :: "string option"
  formatLine :: "(string \<Rightarrow> meta \<Rightarrow> string) option"

definition wrap :: "formatter_options \<Rightarrow> string \<Rightarrow> string" where
  \<open>wrap opts innerHTML =
     ''<div id="'' @ or_string (targetId opts) ''rcon-output''
     @ ''" hx-swap-oob="'' @ or_string (swapStyle opts) ''beforeend''
     @ ''">'' @ innerHTML @ ''</div>''\<close>

definition fmt_response :: "formatter_options \<Rightarrow> string \<Rightarrow> string \<Rightarrow> string \<Rightarrow> string" where
  \<open>fmt_response opts time text command =
     (case formatLine opts of
        Some customFormat \<Rightarrow>
          wrap opts (customFormat text \<lparr>meta_type = ''response'', meta_command = Some command,
                                        meta_serverType = None, meta_timestamp = time\<rparr>)
      | None \<Rightarrow>
          (let lines = filter (\<lambda>l. l \<noteq> []) (split_on newline text);
               formatted = concat (map (\<lambda>line. ''<span class="rcon-line">'' @ escapeHtml line
                                                  @ ''</span>'') lines)
           in wrap opts
                (''<div class="rcon-response">''
                 @ ''<div class="rcon-meta">''
                 @ ''<span class="rcon-cmd">&gt; '' @ escapeHtml command @ ''</span>''
                 @ ''<span class="rcon-time">'' @ time @ ''</span>''
                 @ ''</div>''
                 @ ''<div class="rcon-body">''
                 @ (if formatted \<noteq> [] then formatted
                    else ''<span class="rcon-empty">(no output)</span>'')
                 @ ''</div>''
                 @ ''</div>'')))\<close>

definition fmt_error :: "formatter_options \<Rightarrow> string \<Rightarrow> string \<Rightarrow> string" where
  \<open>fmt_error opts time message =
     (case formatLine opts of
        Some customFormat \<Rightarrow>
          wrap opts (customFormat message \<lparr>meta_type = ''error'', meta_command = None,
                                           meta_serverType = None, meta_timestamp = time\<rparr>)
      | None \<Rightarrow>
          wrap opts
            (''<div class="rcon-error">''
             @ ''<span class="rcon-error-icon">!</span> '' @ escapeHtml message
             @ ''</div>''))\<close>

definition fmt_info :: "formatter_options \<Rightarrow> string \<Rightarrow> string \<Rightarrow> string" where
  \<open>fmt_info opts time message =
     (case formatLine opts of
        Some customFormat \<Rightarrow>
          wrap opts (customFormat message \<lparr>meta_type = ''info'', meta_command = None,
                                           meta_serverType = None, meta_timestamp = time\<rparr>)
      | None \<Rightarrow>
          wrap opts (''<div class="rcon-info">'' @ escapeHtml message @ ''</div>''))\<close>

definition fmt_serverMessage ::
  "formatter_options \<Rightarrow> string \<Rightarrow> string \<Rightarrow> string option \<Rightarrow> string" where
  \<open>fmt_serverMessage opts time text type =
     (case formatLine opts of
        Some customFormat \<Rightarrow>
          wrap opts (customFormat text \<lparr>meta_type = ''server'', meta_command = None,
                                        meta_serverType = type, meta_timestamp = time\<rparr>)
      | None \<Rightarrow>
          (let typeClass =
                 (if toLowerCase (or_string type []) = ''warning'' then ''rcon-warn''
                  else if toLowerCase (or_string type []) = ''error'' then ''rcon-error''
                  else ''rcon-server'')
           in wrap opts
                (''<div class="'' @ typeClass @ ''">''
                 @ ''<span class="rcon-time">'' @ time @ ''</span> '' @ escapeHtml text
                 @ ''</div>'')))\<close>

definition fmt_auth :: "formatter_options \<Rightarrow> string \<Rightarrow> bool \<Rightarrow> string option \<Rightarrow> string" where
  \<open>fmt_auth opts time success detail =
     (let statusHtml =
            (if success
             then ''<span id="rcon-status" hx-swap-oob="true" class="rcon-status connected">Connected</span>''
             else ''<span id="rcon-status" hx-swap-oob="true" class="rcon-status disconnected">Disconnected</span>'');
          msgHtml =
            (if success then fmt_info opts time (or_string detail ''Authenticated to RCON server.'')
             else fmt_error opts time (or_string detail ''Authentication failed.''))
      in statusHtml @ msgHtml)\<close>


section \<open>Session bridge (createBridge)\<close>

subsection \<open>JavaScript values of a parsed browser message\<close>

text \<open>
  The result of \<^verbatim>\<open>JSON.parse\<close>, with integral numbers. A value that may be
  \<^verbatim>\<open>undefined\<close> is a \<open>json option\<close>.
\<close>

datatype json =
    JNull
  | JBool bool
  | JNum int
  | JStr string
  | JArr "json list"
  | JObj "(string \<times> json) list"

type_synonym jsval = "json option"

fun truthy :: "json \<Rightarrow> bool" where
  "truthy JNull = False"
| "truthy (JBool b) = b"
| "truthy (JNum n) = (n \<noteq> 0)"
| "truthy (JStr s) = (s \<noteq> [])"
| "truthy (JArr _) = True"
| "truthy (JObj _) = True"

definition truthy_val :: "jsval \<Rightarrow> bool" where
  "truthy_val v = (case v of None \<Rightarrow> False | Some j \<Rightarrow> truthy j)"

text \<open>\<^verbatim>\<open>v != null\<close>: neither \<^verbatim>\<open>null\<close> nor \<^verbatim>\<open>undefined\<close>.\<close>

definition not_nullish :: "jsval \<Rightarrow> bool" where
  "not_nullish v = (v \<noteq> None \<and> v \<noteq> Some JNull)"

text \<open>
  Reading one of the properties the bridge asks for (\<^verbatim>\<open>auth\<close>, \<^verbatim>\<open>auth.host\<close>,
  \<^verbatim>\<open>command\<close>, \<^verbatim>\<open>host\<close>, ...) on a value other than \<^verbatim>\<open>null\<close>: only an object can
  have it, and of a key written twice \<^verbatim>\<open>JSON.parse\<close> keeps the last.
\<close>

fun get_prop :: "json \<Rightarrow> string \<Rightarrow> jsval" where
  "get_prop (JObj props) k = map_of (rev props) k"
| "get_prop _ k = None"

definition or_val :: "jsval \<Rightarrow> jsval \<Rightarrow> jsval" where
  "or_val a b = (if truthy_val a then a else b)"

text \<open>The decimal digits of a number, and \<^verbatim>\<open>String(v)\<close> as a template string applies it.\<close>

definition digit_char :: "nat \<Rightarrow> char" where
  "digit_char d = char_of (of_char CHR ''0'' + d)"

fun decimal_digits :: "nat \<Rightarrow> string \<Rightarrow> string" where
  "decimal_digits n acc =
     (let acc' = digit_char (n mod 10) # acc
      in if n div 10 = 0 then acc' else decimal_digits (n div 10) acc')"

definition number_to_string :: "int \<Rightarrow> string" where
  "number_to_string i =
     (if 0 \<le> i then decimal_digits (nat i) [] else CHR ''-'' # decimal_digits (nat (- i)) [])"

fun join :: "string \<Rightarrow> string list \<Rightarrow> string" where
  "join sep [] = []"
| "join sep [x] = x"
| "join sep (x # y # ys) = x @ sep @ join sep (y # ys)"

fun to_string :: "json \<Rightarrow> string" where
  "to_string JNull = ''null''"
| "to_string (JBool b) = (if b then ''true'' else ''false'')"
| "to_string (JNum n) = number_to_string n"
| "to_string (JStr s) = s"
| "to_string (JArr xs) = join '','' (map (\<lambda>x. if x = JNull then [] else to_string x) xs)"
| "to_string (JObj _) = ''[object Object]''"

definition to_string_val :: "jsval \<Rightarrow> string" where
  "to_string_val v = (case v of None \<Rightarrow> ''undefined'' | Some j \<Rightarrow> to_string j)"

subsection \<open>String.prototype.trim on UTF-8 text\<close>

text \<open>
  The white space and line terminator characters that \<^verbatim>\<open>trim()\<close> removes, each as its
  UTF-8 bytes: TAB, LF, VT, FF, CR, SP, U+00A0, U+1680, U+2000 to U+200A, U+2028, U+2029,
  U+202F, U+205F, U+3000 and U+FEFF.
\<close>

definition whitespace_seqs :: "string list" where
  "whitespace_seqs =
     [[CHR 0x09], [CHR 0x0A], [CHR 0x0B], [CHR 0x0C], [CHR 0x0D], [CHR 0x20],
      [CHR 0xC2, CHR 0xA0],
      [CHR 0xE1, CHR 0x9A, CHR 0x80],
      [CHR 0xE2, CHR 0x80, CHR 0x80], [CHR 0xE2, CHR 0x80, CHR 0x81],
      [CHR 0xE2, CHR 0x80, CHR 0x82], [CHR 0xE2, CHR 0x80, CHR 0x83],
      [CHR 0xE2, CHR 0x80, CHR 0x84], [CHR 0xE2, CHR 0x80, CHR 0x85],
      [CHR 0xE2, CHR 0x80, CHR 0x86], [CHR 0xE2, CHR 0x80, CHR 0x87],
      [CHR 0xE2, CHR 0x80, CHR 0x88], [CHR 0xE2, CHR 0x80, CHR 0x89],
      [CHR 0xE2, CHR 0x80, CHR 0x8A],
      [CHR 0xE2, CHR 0x80, CHR 0xA8], [CHR 0xE2, CHR 0x80, CHR 0xA9],
      [CHR 0xE2, CHR 0x80, CHR 0xAF],
      [CHR 0xE2, CHR 0x81, CHR 0x9F],
      [CHR 0xE3, CHR 0x80, CHR 0x80],
      [CHR 0xEF, CHR 0xBB, CHR 0xBF]]"

text \<open>Remove leading occurrences of the given non-empty sequences, one character at a time.\<close>

function strip_leading :: "string list \<Rightarrow> string \<Rightarrow> string" where
  "strip_leading seqs s =
     (case find (\<lambda>w. w \<noteq> [] \<and> is_prefix w s) seqs of
        None \<Rightarrow> s
      | Some w \<Rightarrow> strip_leading seqs (drop (length w) s))"
  by pat_completeness auto
termination
proof (relation "measure (\<lambda>(seqs, s). length s)")
  show "wf (measure (\<lambda>(seqs, s). length s))"
    by simp
next
  fix seqs :: "string list" and s w :: string
  assume "find (\<lambda>w. w \<noteq> [] \<and> is_prefix w s) seqs = Some w"
  then have "w \<noteq> []" and "is_prefix w s"
    by (auto simp add: find_Some_iff)
  then have "s \<noteq> []"
    by (auto simp add: is_prefix_def)
  with \<open>w \<noteq> []\<close> show "((seqs, drop (length w) s), (seqs, s)) \<in> measure (\<lambda>(seqs, s). length s)"
    by simp
qed

definition trim :: "string \<Rightarrow> string" where
  "trim s = rev (strip_leading (map rev whitespace_seqs) (rev (strip_leading whitespace_seqs s)))"


subsection \<open>Fragments, configuration and session state\<close>

text \<open>
  A fragment is a call of one method of the formatter with its arguments; \<open>render\<close> is the
  string that the formatter of the session returns for it.
\<close>

datatype fragment =
    FResponse string string
  | FError string
  | FInfo string
  | FAuth bool "string option"
  | FServerMessage string "string option"

fun render :: "formatter_options \<Rightarrow> string \<Rightarrow> fragment \<Rightarrow> string" where
  "render opts time (FResponse text command) = fmt_response opts time text command"
| "render opts time (FError message) = fmt_error opts time message"
| "render opts time (FInfo message) = fmt_info opts time message"
| "render opts time (FAuth success detail) = fmt_auth opts time success detail"
| "render opts time (FServerMessage text type) = fmt_serverMessage opts time text type"

datatype protocol = SourceProtocol | RustProtocol

datatype auth_mode = ServerAuth | ClientAuth

text \<open>
  The options of \<^verbatim>\<open>createBridge\<close> that the message handler reads. \<open>port\<close> is the option
  after its default has been applied; \<open>onConnect\<close> says whether the callback is configured;
  \<open>onCommand\<close> is the filter as a function value whose result is \<^verbatim>\<open>false\<close>, \<^verbatim>\<open>true\<close> or
  anything else (\<open>None\<close>).
\<close>

record bridge_config =
  protocol :: protocol
  host :: jsval
  port :: jsval
  password :: jsval
  authMode :: auth_mode
  onConnect :: bool
  onCommand :: "(string \<Rightarrow> bool option) option"

definition defaultPort :: "bridge_config \<Rightarrow> int" where
  "defaultPort cfg = (if protocol cfg = RustProtocol then 28016 else 27015)"

text \<open>
  The state of one session: whether the browser socket is open (\<^verbatim>\<open>readyState === 1\<close>),
  the \<^verbatim>\<open>authenticated\<close> flag, and \<^verbatim>\<open>rcon\<close>: \<open>None\<close> for \<^verbatim>\<open>null\<close>, \<open>Some b\<close> for a client
  whose \<^verbatim>\<open>connected\<close> getter returns \<open>b\<close>.
\<close>

record session =
  browser_open :: bool
  sess_authenticated :: bool
  rcon :: "bool option"

datatype bridge_effect =
    BrowserSend fragment
  | BrowserClose
  | CreateRcon jsval jsval jsval
  | RconConnect
  | RconExec string
  | RconDestroy
  | CallOnConnect
  | WireRconEvents

definition safeSend :: "session \<Rightarrow> fragment \<Rightarrow> bridge_effect list" where
  "safeSend sess data = (if browser_open sess then [BrowserSend data] else [])"

subsection \<open>The handler of a browser message\<close>

text \<open>
  The handler is an \<^verbatim>\<open>async\<close> function with two \<^verbatim>\<open>await\<close>s. What the awaited promise
  settles with is a parameter: \<open>connect_outcome\<close> is \<open>None\<close> when \<^verbatim>\<open>rcon.connect()\<close> resolves
  and \<open>Some m\<close> when it rejects with message \<open>m\<close>; \<open>exec_outcome\<close> is \<open>Inr response\<close> when
  \<^verbatim>\<open>rcon.exec(command)\<close> resolves and \<open>Inl m\<close> when it rejects with message \<open>m\<close>. The
  result is \<open>Inl\<close> when the handler throws.
\<close>

text \<open>Flat form keys are normalised to a nested \<^verbatim>\<open>data.auth\<close>.\<close>

definition object_of :: "(string \<times> jsval) list \<Rightarrow> json" where
  "object_of kvs = JObj (concat (map (\<lambda>(k, v). case v of None \<Rightarrow> [] | Some j \<Rightarrow> [(k, j)]) kvs))"

definition normalized_auth :: "json \<Rightarrow> jsval" where
  "normalized_auth data =
     (if \<not> truthy_val (get_prop data ''auth'')
         \<and> (not_nullish (get_prop data ''auth.host'') \<or> not_nullish (get_prop data ''auth.password''))
      then Some (object_of [(''host'', get_prop data ''auth.host''),
                            (''port'', get_prop data ''auth.port''),
                            (''password'', get_prop data ''auth.password'')])
      else get_prop data ''auth'')"

definition client_auth ::
  "bridge_config \<Rightarrow> session \<Rightarrow> json \<Rightarrow> string option \<Rightarrow> session \<times> bridge_effect list" where
  "client_auth cfg sess auth connect_outcome =
     (let authHost = or_val (get_prop auth ''host'') (host cfg);
          authPort = or_val (or_val (get_prop auth ''port'') (port cfg)) (Some (JNum (defaultPort cfg)));
          authPass = or_val (get_prop auth ''password'') (password cfg)
      in if \<not> truthy_val authHost \<or> \<not> truthy_val authPass then
           (sess, safeSend sess (FAuth False (Some ''Missing host or password.'')))
         else
           (case connect_outcome of
              None \<Rightarrow>
                (sess\<lparr>sess_authenticated := True, rcon := Some True\<rparr>,
                 [CreateRcon authHost authPort authPass, RconConnect]
                 @ safeSend sess (FAuth True (Some (''Connected to '' @ to_string_val authHost
                                                     @ '':'' @ to_string_val authPort)))
                 @ (if onConnect cfg then [CallOnConnect] else [])
                 @ [WireRconEvents])
            | Some m \<Rightarrow>
                (sess\<lparr>rcon := Some False\<rparr>,
                 [CreateRcon authHost authPort authPass, RconConnect]
                 @ safeSend sess (FAuth False (Some m))
                 @ [WireRconEvents])))"

definition not_authenticated_message :: "bridge_config \<Rightarrow> string" where
  \<open>not_authenticated_message cfg =
     ''Not authenticated. Send {"auth": {"host": "...", "port": '' @ number_to_string (defaultPort cfg)
     @ '', "password": "..."}} first.''\<close>

text \<open>\<^verbatim>\<open>(data.command || '').trim()\<close>: a truthy value that is not a string has no \<^verbatim>\<open>trim\<close>.\<close>

definition command_of :: "json \<Rightarrow> error + string" where
  "command_of data =
     (let v = get_prop data ''command''
      in if \<not> truthy_val v then Inr (trim [])
         else case v of
                Some (JStr s) \<Rightarrow> Inr (trim s)
              | _ \<Rightarrow> Inl TypeError)"

definition run_command ::
  "bridge_config \<Rightarrow> session \<Rightarrow> string \<Rightarrow> string + string \<Rightarrow> session \<times> bridge_effect list" where
  "run_command cfg sess command exec_outcome =
     (if command = [] then (sess, safeSend sess (FError ''Empty command.''))
      else if (case onCommand cfg of
                 None \<Rightarrow> False
               | Some filter_fn \<Rightarrow> filter_fn command = Some False)
      then (sess, safeSend sess (FError (''Command blocked: '' @ command)))
      else if \<not> sess_authenticated sess \<or> rcon sess = None \<or> rcon sess = Some False then
        (sess, safeSend sess (FError ''Not connected to RCON server.''))
      else
        (case exec_outcome of
           Inr response \<Rightarrow> (sess, [RconExec command] @ safeSend sess (FResponse response command))
         | Inl m \<Rightarrow> (sess, [RconExec command] @ safeSend sess (FError (''Command failed: '' @ m)))))"

definition on_message ::
  "bridge_config \<Rightarrow> session \<Rightarrow> json option \<Rightarrow> string option \<Rightarrow> string + string
     \<Rightarrow> error + session \<times> bridge_effect list" where
  "on_message cfg sess parsed connect_outcome exec_outcome =
     (case parsed of
        None \<Rightarrow> Inr (sess, safeSend sess (FError ''Invalid message format.''))
      | Some JNull \<Rightarrow> Inl TypeError
      | Some data \<Rightarrow>
          (let auth = normalized_auth data
           in if authMode cfg = ClientAuth \<and> \<not> sess_authenticated sess then
                (if truthy_val auth then
                   (case auth of
                      None \<Rightarrow> Inl TypeError
                    | Some a \<Rightarrow> Inr (client_auth cfg sess a connect_outcome))
                 else Inr (sess, safeSend sess (FError (not_authenticated_message cfg))))
              else
                (case command_of data of
                   Inl e \<Rightarrow> Inl e
                 | Inr command \<Rightarrow> Inr (run_command cfg sess command exec_outcome))))"

section \<open>Properties of the packet codec\<close>

lemma toString_from: "buffer_toString (buffer_from s) = s"
  by (induction s) (simp_all add: buffer_from_def buffer_toString_def unat_of_nat)

lemma length_buffer_from: "length (buffer_from s) = length s"
  by (simp add: buffer_from_def)

lemma length_int32_bytes: "length (int32_bytes v) = 4"
  by (simp add: int32_bytes_def Let_def)

text \<open>The four bytes of a 32-bit word, put together again, are the word.\<close>

lemma word32_of_bytes:
  fixes w :: "32 word"
  shows "(ucast (ucast w :: byte) :: 32 word)
           OR push_bit 8 (ucast (ucast (drop_bit 8 w) :: byte))
           OR push_bit 16 (ucast (ucast (drop_bit 16 w) :: byte))
           OR push_bit 24 (ucast (ucast (drop_bit 24 w) :: byte)) = w"
    (is "?lhs = w")
proof (rule bit_word_eqI)
  fix n :: nat
  assume "n < LENGTH(32)"
  then have n: "n < 32"
    by simp
  consider "n < 8" | "8 \<le> n" "n < 16" | "16 \<le> n" "n < 24" | "24 \<le> n"
    by linarith
  then show "bit ?lhs n = bit w n"
    using n by cases (auto simp add: bit_simps)
qed

lemma sint_word_of_int32:
  "- (2 ^ 31) \<le> v \<Longrightarrow> v \<le> 2 ^ 31 - 1 \<Longrightarrow> sint (word_of_int v :: 32 word) = v"
  by (simp add: signed_of_int signed_take_bit_int_eq_self)

lemma readInt32LE_at:
  assumes "- (2 ^ 31) \<le> v" and "v \<le> 2 ^ 31 - 1"
  shows "readInt32LE (pre @ int32_bytes v @ post) (length pre) = Inr v"
  using assms
  by (simp add: readInt32LE_def nth_append int32_bytes_def Let_def bytes_int32_def
      word32_of_bytes sint_word_of_int32)

lemma buffer_write_append:
  "buffer_write (pre @ rest) (length pre) bs = pre @ bs @ drop (length bs) rest"
  by (simp add: buffer_write_def)

lemma writeInt32LE_append:
  assumes "- (2 ^ 31) \<le> v" and "v \<le> 2 ^ 31 - 1" and "4 \<le> m"
  shows "writeInt32LE (pre @ replicate m 0) v (length pre)
         = Inr (pre @ int32_bytes v @ replicate (m - 4) 0)"
  using assms by (simp add: writeInt32LE_def buffer_write_append length_int32_bytes)

text \<open>
  The in-place writes of \<open>encodePacket\<close> produce the frame layout: size, id, type, the
  bytes of the text and two zero bytes.
\<close>

lemma encodePacket_bytes:
  assumes "- (2 ^ 31) \<le> ident" and "ident \<le> 2 ^ 31 - 1"
    and "- (2 ^ 31) \<le> type" and "type \<le> 2 ^ 31 - 1"
    and "int (length payload) + 10 \<le> 2 ^ 31 - 1"
  shows "encodePacket ident type payload =
    Inr (int32_bytes (int (length payload) + 10) @ int32_bytes ident @ int32_bytes type
         @ buffer_from payload @ [0, 0])"
proof -
  let ?n = "length payload"
  let ?S = "int32_bytes (int ?n + 10)"
  let ?I = "int32_bytes ident"
  let ?T = "int32_bytes type"
  let ?B = "buffer_from payload"
  have sz: "4 + 4 + length ?B + 1 + 1 = ?n + 10"
    by (simp add: length_buffer_from)
  have w1: "writeInt32LE (buffer_alloc (4 + (?n + 10))) (int (?n + 10)) 0
            = Inr (?S @ replicate (?n + 10) 0)"
    using writeInt32LE_append [of "int ?n + 10" "?n + 14" "[]"] assms(5)
    by (simp add: buffer_alloc_def add.commute)
  have w2: "writeInt32LE (?S @ replicate (?n + 10) 0) ident 4
            = Inr (?S @ ?I @ replicate (?n + 6) 0)"
    using writeInt32LE_append [of ident "?n + 10" ?S] assms(1,2)
    by (simp add: length_int32_bytes)
  have w3: "writeInt32LE (?S @ ?I @ replicate (?n + 6) 0) type 8
            = Inr (?S @ ?I @ ?T @ replicate (?n + 2) 0)"
    using writeInt32LE_append [of type "?n + 6" "?S @ ?I"] assms(3,4)
    by (simp add: length_int32_bytes)
  have c: "buffer_copy ?B (?S @ ?I @ ?T @ replicate (?n + 2) 0) 12
           = ?S @ ?I @ ?T @ ?B @ replicate 2 0"
    using buffer_write_append [of "?S @ ?I @ ?T" "replicate (?n + 2) 0" ?B]
    by (simp add: buffer_copy_def length_int32_bytes length_buffer_from del: replicate.simps)
  have u: "(?S @ ?I @ ?T @ ?B @ replicate 2 0)[12 + ?n := 0, 12 + ?n + 1 := 0]
           = ?S @ ?I @ ?T @ ?B @ [0, 0]"
    by (simp add: list_update_append length_int32_bytes length_buffer_from numeral_2_eq_2)
  show ?thesis
    unfolding encodePacket_def Let_def sz
    by (simp only: w1 w2 w3 c u sum.case length_buffer_from)
qed

lemma buffer_slice_body:
  assumes "length pre = 12"
  shows "buffer_slice (pre @ b @ [x, y]) 12 (int (length b) + 12) = b"
proof -
  have "nat (int (length b) + 12) = length b + 12"
    by linarith
  with assms show ?thesis
    by (simp add: buffer_slice_def adjustOffset_def Let_def)
qed

text \<open>
  C2. For every id in the signed 32-bit range, every kind in \<open>{0, 2, 3}\<close> and every text
  whose frame fits a signed 32-bit size, decoding the bytes of \<open>encodePacket\<close> gives back
  the id, the kind and the text, consumes exactly the encoded bytes, and the size field of
  the frame is \<open>4 + 4 + length text + 2\<close>.
\<close>

theorem encode_decode_roundtrip:
  assumes "- (2 ^ 31) \<le> ident" and "ident \<le> 2 ^ 31 - 1"
    and "type \<in> {0, 2, 3}"
    and "int (length payload) + 10 \<le> 2 ^ 31 - 1"
  shows "\<exists>bytes. encodePacket ident type payload = Inr bytes
           \<and> decodePacket bytes =
               Inr (Some \<lparr>pkt_id = ident, pkt_type = type, pkt_body = payload,
                          totalLength = int (length bytes)\<rparr>)
           \<and> readInt32LE bytes 0 = Inr (4 + 4 + int (length payload) + 2)"
proof -
  let ?n = "length payload"
  let ?S = "int32_bytes (int ?n + 10)"
  let ?I = "int32_bytes ident"
  let ?T = "int32_bytes type"
  let ?B = "buffer_from payload"
  let ?bytes = "?S @ ?I @ ?T @ ?B @ [0, 0]"
  from assms(3) have ty: "- (2 ^ 31) \<le> type" "type \<le> 2 ^ 31 - 1"
    by auto
  have enc: "encodePacket ident type payload = Inr ?bytes"
    using assms(1,2) ty assms(4) by (rule encodePacket_bytes)
  have len: "length ?bytes = ?n + 14"
    by (simp add: length_int32_bytes length_buffer_from)
  have szr: "- (2 ^ 31) \<le> int ?n + 10"
    by simp
  have r0: "readInt32LE ?bytes 0 = Inr (int ?n + 10)"
    using readInt32LE_at [OF szr assms(4), of "[]"] by simp
  have r4: "readInt32LE ?bytes 4 = Inr ident"
    using readInt32LE_at [OF assms(1,2), of ?S] by (simp add: length_int32_bytes)
  have r8: "readInt32LE ?bytes 8 = Inr type"
    using readInt32LE_at [OF ty, of "?S @ ?I"] by (simp add: length_int32_bytes)
  have sl: "buffer_slice ?bytes 12 (int ?n + 12) = ?B"
    using buffer_slice_body [of "?S @ ?I @ ?T" ?B 0 0]
    by (simp add: length_int32_bytes length_buffer_from)
  have "decodePacket ?bytes =
      Inr (Some \<lparr>pkt_id = ident, pkt_type = type, pkt_body = payload,
                 totalLength = int (length ?bytes)\<rparr>)"
    unfolding decodePacket_def Let_def r0 r4 r8 len
    using sl by (simp add: toString_from add.commute)
  with enc r0 show ?thesis
    by (intro exI [of _ ?bytes]) simp
qed

theorem encode_decode_roundtrip_witness:
  "\<exists>bytes. encodePacket 7 2 ''status'' = Inr bytes
     \<and> decodePacket bytes =
         Inr (Some \<lparr>pkt_id = 7, pkt_type = 2, pkt_body = ''status'',
                    totalLength = int (length bytes)\<rparr>)
     \<and> readInt32LE bytes 0 = Inr 16"
  using encode_decode_roundtrip [of 7 2 "''status''"] by simp


text \<open>
  C6. \<open>decodePacket\<close> returns \<open>None\<close> for a buffer of fewer than 4 bytes and for a buffer of
  fewer than \<open>4 + size\<close> bytes. It has no check of a minimum size: a buffer of at least 12
  bytes that holds its declared \<open>4 + size\<close> bytes is decoded to a packet of that total
  length, whatever the declared size, also when it is less than 10.
\<close>

theorem decodePacket_incomplete_or_packet:
  "(length buf < 4 \<longrightarrow> decodePacket buf = Inr None)
   \<and> (readInt32LE buf 0 = Inr sz \<and> int (length buf) < 4 + sz \<longrightarrow> decodePacket buf = Inr None)
   \<and> (readInt32LE buf 0 = Inr sz \<and> 12 \<le> length buf \<and> 4 + sz \<le> int (length buf) \<longrightarrow>
        (\<exists>pkt. decodePacket buf = Inr (Some pkt) \<and> totalLength pkt = 4 + sz))"
proof (intro conjI impI)
  assume "length buf < 4"
  then show "decodePacket buf = Inr None"
    by (simp add: decodePacket_def)
next
  assume "readInt32LE buf 0 = Inr sz \<and> int (length buf) < 4 + sz"
  then show "decodePacket buf = Inr None"
    by (simp add: decodePacket_def)
next
  assume a: "readInt32LE buf 0 = Inr sz \<and> 12 \<le> length buf \<and> 4 + sz \<le> int (length buf)"
  then have "\<exists>i. readInt32LE buf 4 = Inr i" and "\<exists>t. readInt32LE buf 8 = Inr t"
    by (simp_all add: readInt32LE_def)
  then obtain i t where "readInt32LE buf 4 = Inr i" and "readInt32LE buf 8 = Inr t"
    by blast
  with a show "\<exists>pkt. decodePacket buf = Inr (Some pkt) \<and> totalLength pkt = 4 + sz"
    by (simp add: decodePacket_def Let_def)
qed

theorem decodePacket_incomplete_or_packet_witness:
  "decodePacket [16, 0, 0] = Inr None
   \<and> decodePacket [16, 0, 0, 0, 7, 0, 0, 0] = Inr None
   \<and> (\<exists>pkt. decodePacket [8, 0, 0, 0, 1, 0, 0, 0, 0, 0, 0, 0] = Inr (Some pkt)
              \<and> totalLength pkt = 12)"
proof -
  have r1: "readInt32LE [16, 0, 0, 0, 7, 0, 0, 0] 0 = Inr 16"
    by (simp add: readInt32LE_def bytes_int32_def)
  have r2: "readInt32LE [8, 0, 0, 0, 1, 0, 0, 0, 0, 0, 0, 0] 0 = Inr 8"
    by (simp add: readInt32LE_def bytes_int32_def)
  show ?thesis
    using decodePacket_incomplete_or_packet [of "[16, 0, 0]" 0]
      decodePacket_incomplete_or_packet [of "[16, 0, 0, 0, 7, 0, 0, 0]" 16]
      decodePacket_incomplete_or_packet [of "[8, 0, 0, 0, 1, 0, 0, 0, 0, 0, 0, 0]" 8]
      r1 r2
    by simp
qed

text \<open>
  A frame that declares size 8, less than 10, with its 12 bytes in the buffer: no error,
  a packet with an empty text.
\<close>

theorem decodePacket_small_size_counterexample:
  "readInt32LE [8, 0, 0, 0, 1, 0, 0, 0, 0, 0, 0, 0] 0 = Inr 8
   \<and> decodePacket [8, 0, 0, 0, 1, 0, 0, 0, 0, 0, 0, 0]
       = Inr (Some \<lparr>pkt_id = 1, pkt_type = 0, pkt_body = [], totalLength = 12\<rparr>)"
  by (simp add: decodePacket_def readInt32LE_def bytes_int32_def buffer_slice_def
      adjustOffset_def buffer_toString_def)


section \<open>Properties of the binary client\<close>

lemma map_delete_Nil [simp]: "map_delete k [] = []"
  by (simp add: map_delete_def)

lemma map_has_Nil [simp]: "\<not> map_has k []"
  by (simp add: map_has_def)

lemma map_has_iff: "map_has k m \<longleftrightarrow> k \<in> fst ` set m"
  by (simp add: map_has_def map_of_eq_None_iff)

lemma nextId_range: "1 \<le> snd (nextId c) \<and> snd (nextId c) \<le> 9000"
  by (simp add: nextId_def Let_def)

text \<open>An authenticated \<open>rcon_exec\<close> registers the command and settles nothing.\<close>

lemma rcon_exec_authenticated:
  assumes "authenticated c" and "int (length command) + 10 \<le> 2 ^ 31 - 1"
  shows "\<exists>es. rcon_exec c p command =
           (c\<lparr>requestId := requestId c mod 9000 + 1,
              pending := map_set (int (requestId c mod 9000 + 1)) \<lparr>body = [], resolver = p\<rparr>
                           (pending c)\<rparr>, es)
         \<and> (\<forall>e \<in> set es. \<not> settles p e)"
proof -
  let ?i = "int (requestId c mod 9000 + 1)"
  have r: "1 \<le> ?i" "?i \<le> 9000"
    using nextId_range [of c] by (simp_all add: nextId_def Let_def)
  have "\<exists>b. encodePacket ?i SERVERDATA_EXECCOMMAND command = Inr b"
    using encodePacket_bytes [of ?i SERVERDATA_EXECCOMMAND command] r assms(2)
    by (simp add: SERVERDATA_EXECCOMMAND_def)
  then obtain b1 where b1: "encodePacket ?i SERVERDATA_EXECCOMMAND command = Inr b1"
    by blast
  have "\<exists>b. encodePacket SENTINEL_ID SERVERDATA_RESPONSE_VALUE [] = Inr b"
    using encodePacket_bytes [of SENTINEL_ID SERVERDATA_RESPONSE_VALUE "[]"]
    by (simp add: SENTINEL_ID_def SERVERDATA_RESPONSE_VALUE_def)
  then obtain b2 where b2: "encodePacket SENTINEL_ID SERVERDATA_RESPONSE_VALUE [] = Inr b2"
    by blast
  show ?thesis
    using assms(1) b1 b2
    by (auto simp add: rcon_exec_def nextId_def Let_def sendRaw_def)
qed

lemma handlePacket_single_pending:
  assumes "pendingAuth c = None" and "pkt_id f \<noteq> SENTINEL_ID" and "pending c = [(ident, entry)]"
  shows "rcon_handlePacket c f =
     (c\<lparr>pending := [(ident, entry\<lparr>body := body entry @
          (if pkt_type f = SERVERDATA_RESPONSE_VALUE \<and> pkt_id f = ident then pkt_body f else [])\<rparr>)]\<rparr>, [])"
  using assms by (simp add: rcon_handlePacket_def map_has_def map_get_def)

lemma handlePacket_sentinel:
  assumes "pendingAuth c = None" and "pkt_id s = SENTINEL_ID" and "pending c = (ident, entry) # rest"
  shows "rcon_handlePacket c s =
     (c\<lparr>pending := map_delete ident (pending c)\<rparr>,
      [Emit (Response ident (body entry)), Resolve (resolver entry) (body entry)])"
  using assms by (simp add: rcon_handlePacket_def)

lemma handlePackets_single_pending:
  assumes "pendingAuth c = None" and "\<forall>f \<in> set frames. pkt_id f \<noteq> SENTINEL_ID"
    and "pkt_id s = SENTINEL_ID" and "pending c = [(ident, entry)]"
  shows "rcon_handlePackets c (frames @ [s]) =
     (c\<lparr>pending := []\<rparr>,
      [Emit (Response ident (body entry @ response_text ident frames)),
       Resolve (resolver entry) (body entry @ response_text ident frames)])"
  using assms
proof (induction frames arbitrary: c entry)
  case Nil
  then show ?case
    by (simp add: handlePacket_sentinel map_delete_def response_text_def)
next
  case (Cons f frames)
  let ?e = "entry\<lparr>body := body entry @
          (if pkt_type f = SERVERDATA_RESPONSE_VALUE \<and> pkt_id f = ident then pkt_body f else [])\<rparr>"
  let ?c = "c\<lparr>pending := [(ident, ?e)]\<rparr>"
  have step: "rcon_handlePacket c f = (?c, [])"
    using Cons.prems by (simp add: handlePacket_single_pending)
  have "rcon_handlePackets ?c (frames @ [s]) =
     (?c\<lparr>pending := []\<rparr>,
      [Emit (Response ident (body ?e @ response_text ident frames)),
       Resolve (resolver ?e) (body ?e @ response_text ident frames)])"
    using Cons.prems by (intro Cons.IH) simp_all
  with step show ?case
    by (simp add: response_text_def)
qed

text \<open>
  C1. With no other command pending and no authentication in progress, the promise of
  \<open>rcon_exec\<close> is resolved, when the next frame with the sentinel id arrives, with the
  concatenation in arrival order of the texts of the \<open>RESPONSE_VALUE\<close> frames that carry the
  command's id and arrived since the command was issued; \<open>rcon_exec\<close> itself settles nothing.
  A sentinel frame that arrives while several commands are pending resolves the oldest
  entry of the table with the text accumulated for it.
\<close>

theorem exec_resolves_with_concatenated_bodies:
  assumes "authenticated c" and "pendingAuth c = None"
    and "int (length command) + 10 \<le> 2 ^ 31 - 1"
    and "\<forall>f \<in> set frames. pkt_id f \<noteq> SENTINEL_ID"
    and "pkt_id sentinel = SENTINEL_ID"
  shows "(pending c = [] \<longrightarrow>
           (let ident = int (requestId c mod 9000 + 1);
                received = concat (map pkt_body
                  (filter (\<lambda>f. pkt_type f = SERVERDATA_RESPONSE_VALUE \<and> pkt_id f = ident) frames));
                (c1, es1) = rcon_exec c p command;
                (c2, es2) = rcon_handlePackets c1 (frames @ [sentinel])
            in (\<forall>e \<in> set es1. \<not> settles p e)
               \<and> es2 = [Emit (Response ident received), Resolve p received]
               \<and> pending c2 = []))
       \<and> (\<forall>oldest_id oldest rest. pending c = (oldest_id, oldest) # rest \<longrightarrow>
             rcon_handlePacket c sentinel =
               (c\<lparr>pending := map_delete oldest_id (pending c)\<rparr>,
                [Emit (Response oldest_id (body oldest)),
                 Resolve (resolver oldest) (body oldest)]))"
proof (intro conjI impI allI)
  assume empty: "pending c = []"
  let ?i = "int (requestId c mod 9000 + 1)"
  let ?c1 = "c\<lparr>requestId := requestId c mod 9000 + 1,
               pending := map_set ?i \<lparr>body = [], resolver = p\<rparr> (pending c)\<rparr>"
  obtain es where ex: "rcon_exec c p command = (?c1, es)" and quiet: "\<forall>e \<in> set es. \<not> settles p e"
    using rcon_exec_authenticated [OF assms(1,3), of p] by blast
  have p1: "pending ?c1 = [(?i, \<lparr>body = [], resolver = p\<rparr>)]"
    using empty by simp
  have "rcon_handlePackets ?c1 (frames @ [sentinel]) =
     (?c1\<lparr>pending := []\<rparr>,
      [Emit (Response ?i (response_text ?i frames)), Resolve p (response_text ?i frames)])"
    using handlePackets_single_pending [of ?c1 frames sentinel ?i "\<lparr>body = [], resolver = p\<rparr>"]
      assms(2,4,5) p1 by simp
  with ex quiet show "let ident = int (requestId c mod 9000 + 1);
                received = concat (map pkt_body
                  (filter (\<lambda>f. pkt_type f = SERVERDATA_RESPONSE_VALUE \<and> pkt_id f = ident) frames));
                (c1, es1) = rcon_exec c p command;
                (c2, es2) = rcon_handlePackets c1 (frames @ [sentinel])
            in (\<forall>e \<in> set es1. \<not> settles p e)
               \<and> es2 = [Emit (Response ident received), Resolve p received]
               \<and> pending c2 = []"
    by (simp add: response_text_def)
next
  fix oldest_id oldest rest
  assume "pending c = (oldest_id, oldest) # rest"
  then show "rcon_handlePacket c sentinel =
               (c\<lparr>pending := map_delete oldest_id (pending c)\<rparr>,
                [Emit (Response oldest_id (body oldest)),
                 Resolve (resolver oldest) (body oldest)])"
    using assms(2,5) by (simp add: handlePacket_sentinel)
qed

theorem exec_resolves_with_concatenated_bodies_witness:
  "snd (rcon_handlePackets
          (fst (rcon_exec \<lparr>socket = Some False, recvBuf = [], requestId = 1, authenticated = True,
                           pendingAuth = None, pending = []\<rparr> 5 ''status''))
          ([\<lparr>pkt_id = 2, pkt_type = 0, pkt_body = ''hostname: X '', totalLength = 26\<rparr>,
            \<lparr>pkt_id = 2, pkt_type = 0, pkt_body = ''players: 1/10'', totalLength = 27\<rparr>]
           @ [\<lparr>pkt_id = 9999, pkt_type = 0, pkt_body = [], totalLength = 14\<rparr>]))
     = [Emit (Response 2 ''hostname: X players: 1/10''), Resolve 5 ''hostname: X players: 1/10'']
   \<and> snd (rcon_handlePacket
            \<lparr>socket = Some False, recvBuf = [], requestId = 3, authenticated = True,
             pendingAuth = None,
             pending = [(2, \<lparr>body = ''first'', resolver = 5\<rparr>), (3, \<lparr>body = [], resolver = 6\<rparr>)]\<rparr>
            \<lparr>pkt_id = 9999, pkt_type = 0, pkt_body = [], totalLength = 14\<rparr>)
     = [Emit (Response 2 ''first''), Resolve 5 ''first'']"
  using exec_resolves_with_concatenated_bodies
    [of "\<lparr>socket = Some False, recvBuf = [], requestId = 1, authenticated = True,
          pendingAuth = None, pending = []\<rparr>" "''status''"
        "[\<lparr>pkt_id = 2, pkt_type = 0, pkt_body = ''hostname: X '', totalLength = 26\<rparr>,
          \<lparr>pkt_id = 2, pkt_type = 0, pkt_body = ''players: 1/10'', totalLength = 27\<rparr>]"
        "\<lparr>pkt_id = 9999, pkt_type = 0, pkt_body = [], totalLength = 14\<rparr>" 5]
    exec_resolves_with_concatenated_bodies
    [of "\<lparr>socket = Some False, recvBuf = [], requestId = 3, authenticated = True,
          pendingAuth = None,
          pending = [(2, \<lparr>body = ''first'', resolver = 5\<rparr>), (3, \<lparr>body = [], resolver = 6\<rparr>)]\<rparr>"
        "[]" "[]" "\<lparr>pkt_id = 9999, pkt_type = 0, pkt_body = [], totalLength = 14\<rparr>" 5]
  by (simp add: SENTINEL_ID_def SERVERDATA_RESPONSE_VALUE_def Let_def split_beta)

section \<open>The timers of exec\<close>

text \<open>
  C3. When the timer of a command fires while the command is still in the pending table,
  the promise of \<open>exec\<close> is resolved and nothing is rejected: the binary client resolves
  it with the text accumulated so far when that text is not empty and with the placeholder
  \<^verbatim>\<open>(no response)\<close> when it is empty; the JSON client resolves it with the placeholder
  \<^verbatim>\<open>(no response - timed out)\<close> (written with an em dash).
\<close>

theorem exec_timeout_resolves:
  "(map_get ident (pending c) = Some entry \<longrightarrow>
      rcon_exec_timeout c ident p =
        (c\<lparr>pending := map_delete ident (pending c)\<rparr>,
         [Resolve p (if body entry = [] then ''(no response)'' else body entry)]))
   \<and> (map_has ident (ws_pending w) \<longrightarrow>
        ws_exec_timeout w ident p =
          (w\<lparr>ws_pending := map_delete ident (ws_pending w)\<rparr>,
           [Resolve p (''(no response '' @ [CHR 0xE2, CHR 0x80, CHR 0x94] @ '' timed out)'')]))
   \<and> (\<forall>e \<in> set (snd (rcon_exec_timeout c ident p)) \<union> set (snd (ws_exec_timeout w ident p)).
         \<forall>q err. e \<noteq> Reject q err)"
  by (auto simp add: rcon_exec_timeout_def ws_exec_timeout_def map_has_def map_get_def
      timed_out_placeholder_def em_dash_def split: option.splits)

theorem exec_timeout_resolves_witness:
  "rcon_exec_timeout
     \<lparr>socket = Some False, recvBuf = [], requestId = 2, authenticated = True, pendingAuth = None,
      pending = [(2, \<lparr>body = ''first chunk '', resolver = 5\<rparr>)]\<rparr> 2 5
     = (\<lparr>socket = Some False, recvBuf = [], requestId = 2, authenticated = True,
         pendingAuth = None, pending = []\<rparr>,
        [Resolve 5 ''first chunk ''])
   \<and> ws_exec_timeout
       \<lparr>ws = Some OPEN, ws_requestId = 7, ws_authenticated = True, ws_pending = [(7, 3)]\<rparr> 7 3
     = (\<lparr>ws = Some OPEN, ws_requestId = 7, ws_authenticated = True, ws_pending = []\<rparr>,
        [Resolve 3 (''(no response '' @ [CHR 0xE2, CHR 0x80, CHR 0x94] @ '' timed out)'')])"
  using exec_timeout_resolves
    [of 2 "\<lparr>socket = Some False, recvBuf = [], requestId = 2, authenticated = True,
             pendingAuth = None, pending = [(2, \<lparr>body = ''first chunk '', resolver = 5\<rparr>)]\<rparr>"
        "\<lparr>body = ''first chunk '', resolver = 5\<rparr>" 5
        "\<lparr>ws = Some OPEN, ws_requestId = 7, ws_authenticated = True, ws_pending = [(7, 3)]\<rparr>"]
    exec_timeout_resolves
    [of 7 "\<lparr>socket = Some False, recvBuf = [], requestId = 2, authenticated = True,
             pendingAuth = None, pending = [(2, \<lparr>body = ''first chunk '', resolver = 5\<rparr>)]\<rparr>"
        "\<lparr>body = ''first chunk '', resolver = 5\<rparr>" 3
        "\<lparr>ws = Some OPEN, ws_requestId = 7, ws_authenticated = True, ws_pending = [(7, 3)]\<rparr>"]
  by (simp add: map_get_def map_has_def map_delete_def)

text \<open>
  A command to which no frame has answered when its timer fires: the text accumulated so
  far is empty, and the promise is resolved with the placeholder instead.
\<close>

theorem exec_timeout_empty_body_counterexample:
  "map_get 2 (pending (fst (rcon_exec
       \<lparr>socket = Some False, recvBuf = [], requestId = 1, authenticated = True,
        pendingAuth = None, pending = []\<rparr> 5 ''status'')))
     = Some \<lparr>body = [], resolver = 5\<rparr>
   \<and> snd (rcon_exec_timeout (fst (rcon_exec
       \<lparr>socket = Some False, recvBuf = [], requestId = 1, authenticated = True,
        pendingAuth = None, pending = []\<rparr> 5 ''status'')) 2 5)
     = [Resolve 5 ''(no response)'']"
proof -
  let ?c = "\<lparr>socket = Some False, recvBuf = [], requestId = 1, authenticated = True,
             pendingAuth = None, pending = []\<rparr>"
  obtain es where "rcon_exec ?c 5 ''status'' =
      (?c\<lparr>requestId := requestId ?c mod 9000 + 1,
          pending := map_set (int (requestId ?c mod 9000 + 1)) \<lparr>body = [], resolver = 5\<rparr>
                       (pending ?c)\<rparr>, es)"
    using rcon_exec_authenticated [of ?c "''status''" 5] by auto
  then show ?thesis
    by (simp add: rcon_exec_timeout_def map_get_def map_has_def map_delete_def)
qed


section \<open>Properties of the JSON client\<close>

lemma set_map_set: "set (map_set k v m) \<subseteq> insert (k, v) (set m)"
  by (induction m) (auto split: if_splits)

lemma set_map_delete: "set (map_delete k m) \<subseteq> set m"
  by (auto simp add: map_delete_def)

lemma not_has_after_delete: "\<not> map_has k (map_delete k m)"
  by (induction m) (auto simp add: map_has_def map_delete_def)

lemma map_get_Some_has: "map_get k m = Some v \<Longrightarrow> map_has k m"
  by (simp add: map_get_def map_has_def)

lemma or_string_Some: "or_string (Some m) [] = m"
  by (simp add: or_string_def)

text \<open>The identifiers in the pending table were issued by \<open>ws_nextId\<close>: they lie in 1..9000.\<close>

lemma ws_nextId_range: "1 \<le> snd (ws_nextId c) \<and> snd (ws_nextId c) \<le> 9000"
  by (simp add: ws_nextId_def Let_def)

lemma ws_step_keys_issued:
  assumes "\<forall>k \<in> fst ` set (ws_pending c). 1 \<le> k \<and> k \<le> 9000"
  shows "\<forall>k \<in> fst ` set (ws_pending (fst (ws_step c i))). 1 \<le> k \<and> k \<le> 9000"
proof -
  have sub: "set (ws_pending (fst (ws_step c i)))
             \<subseteq> insert (snd (ws_nextId c), the (input_promise i)) (set (ws_pending c))"
  proof (cases i)
    case (InExec p command)
    then show ?thesis
      using set_map_set [of "snd (ws_nextId c)" p "ws_pending c"]
      by (auto simp add: ws_exec_def ws_nextId_def Let_def)
  next
    case (InMessage msg)
    then show ?thesis
      using set_map_delete [of _ "ws_pending c"]
      by (auto simp add: ws_handleMessage_def Let_def split: option.splits)
  next
    case (InTimeout ident p)
    then show ?thesis
      using set_map_delete [of ident "ws_pending c"]
      by (auto simp add: ws_exec_timeout_def)
  qed (auto simp add: ws_on_open_def ws_on_error_def ws_on_close_def ws_destroy_def Let_def)
  show ?thesis
  proof
    fix k
    assume "k \<in> fst ` set (ws_pending (fst (ws_step c i)))"
    then obtain v where "(k, v) \<in> set (ws_pending (fst (ws_step c i)))"
      by auto
    with sub have "k = snd (ws_nextId c) \<or> (k, v) \<in> set (ws_pending c)"
      by auto
    then show "1 \<le> k \<and> k \<le> 9000"
    proof
      assume "k = snd (ws_nextId c)"
      then show ?thesis
        using ws_nextId_range [of c] by simp
    next
      assume "(k, v) \<in> set (ws_pending c)"
      then have "k \<in> fst ` set (ws_pending c)"
        by force
      with assms show ?thesis
        by blast
    qed
  qed
qed

lemma ws_run_keys_issued:
  assumes "\<forall>k \<in> fst ` set (ws_pending c). 1 \<le> k \<and> k \<le> 9000"
  shows "\<forall>k \<in> fst ` set (ws_pending (fst (ws_run c is))). 1 \<le> k \<and> k \<le> 9000"
  using assms
proof (induction "is" arbitrary: c)
  case Nil
  then show ?case by simp
next
  case (Cons i "is")
  from Cons.prems have "\<forall>k \<in> fst ` set (ws_pending (fst (ws_step c i))). 1 \<le> k \<and> k \<le> 9000"
    by (rule ws_step_keys_issued)
  then have "\<forall>k \<in> fst ` set (ws_pending (fst (ws_run (fst (ws_step c i)) is))). 1 \<le> k \<and> k \<le> 9000"
    by (rule Cons.IH)
  then show ?case
    by (simp add: split_beta)
qed

text \<open>
  C4. For a pending table whose identifiers were issued by the client (they are positive):
  a message whose \<open>Identifier\<close> is at most 0 is emitted as a \<open>server-message\<close> event with its
  text and severity and resolves nothing; a message whose \<open>Identifier\<close> is the key of a
  pending command resolves the promise of that command with the text of the message and
  removes the entry, so that a later message with the same \<open>Identifier\<close> resolves nothing;
  a message with any other \<open>Identifier\<close> is emitted as a \<open>server-message\<close> event. The text is
  the \<open>Message\<close> field of the message when it has one.
\<close>

theorem ws_handleMessage_classification:
  assumes "\<forall>k \<in> fst ` set (ws_pending c). 0 < k"
  shows "(\<forall>i. Identifier msg = Some i \<and> i \<le> 0 \<longrightarrow>
            ws_handleMessage c msg =
              (c, [Emit (ServerMessage (or_string (Message msg) [])
                                       (or_string (Type msg) ''Generic''))]))
       \<and> (\<forall>i p. Identifier msg = Some i \<and> map_get i (ws_pending c) = Some p \<longrightarrow>
            ws_handleMessage c msg =
              (c\<lparr>ws_pending := map_delete i (ws_pending c)\<rparr>,
               [Emit (Response i (or_string (Message msg) [])),
                Resolve p (or_string (Message msg) [])])
            \<and> (\<forall>later. Identifier later = Some i \<longrightarrow>
                  (\<forall>e \<in> set (snd (ws_handleMessage
                                     (c\<lparr>ws_pending := map_delete i (ws_pending c)\<rparr>) later)).
                     \<forall>q v. e \<noteq> Resolve q v)))
       \<and> (Identifier msg = None \<or> (\<exists>i. Identifier msg = Some i \<and> \<not> map_has i (ws_pending c)) \<longrightarrow>
            ws_handleMessage c msg =
              (c, [Emit (ServerMessage (or_string (Message msg) [])
                                       (or_string (Type msg) ''Generic''))]))
       \<and> (\<forall>m. Message msg = Some m \<longrightarrow> or_string (Message msg) [] = m)"
proof (intro conjI allI impI)
  fix i
  assume a: "Identifier msg = Some i \<and> i \<le> 0"
  then have "\<not> map_has i (ws_pending c)"
    using assms by (auto simp add: map_has_iff)
  with a show "ws_handleMessage c msg =
      (c, [Emit (ServerMessage (or_string (Message msg) []) (or_string (Type msg) ''Generic''))])"
    by (simp add: ws_handleMessage_def Let_def)
next
  fix i p
  assume a: "Identifier msg = Some i \<and> map_get i (ws_pending c) = Some p"
  then have has: "map_has i (ws_pending c)"
    by (simp add: map_get_Some_has)
  then have "0 < i"
    using assms by (auto simp add: map_has_iff)
  with a has show "ws_handleMessage c msg =
      (c\<lparr>ws_pending := map_delete i (ws_pending c)\<rparr>,
       [Emit (Response i (or_string (Message msg) [])), Resolve p (or_string (Message msg) [])])"
    by (simp add: ws_handleMessage_def Let_def)
next
  fix i and later :: ws_message
  assume "Identifier later = Some i"
  moreover have "\<not> map_has i (map_delete i (ws_pending c))"
    by (rule not_has_after_delete)
  ultimately show "\<forall>e \<in> set (snd (ws_handleMessage
                                     (c\<lparr>ws_pending := map_delete i (ws_pending c)\<rparr>) later)).
                     \<forall>q v. e \<noteq> Resolve q v"
    by (auto simp add: ws_handleMessage_def Let_def split: if_splits)
next
  assume "Identifier msg = None \<or> (\<exists>i. Identifier msg = Some i \<and> \<not> map_has i (ws_pending c))"
  then show "ws_handleMessage c msg =
      (c, [Emit (ServerMessage (or_string (Message msg) []) (or_string (Type msg) ''Generic''))])"
    by (auto simp add: ws_handleMessage_def Let_def)
next
  fix m
  assume "Message msg = Some m"
  then show "or_string (Message msg) [] = m"
    by (simp add: or_string_Some)
qed

theorem ws_handleMessage_classification_witness:
  "ws_handleMessage \<lparr>ws = Some OPEN, ws_requestId = 7, ws_authenticated = True, ws_pending = [(7, 3)]\<rparr>
     \<lparr>Identifier = Some (- 1), Message = Some ''player joined'', Type = Some ''Generic''\<rparr>
     = (\<lparr>ws = Some OPEN, ws_requestId = 7, ws_authenticated = True, ws_pending = [(7, 3)]\<rparr>,
        [Emit (ServerMessage ''player joined'' ''Generic'')])
   \<and> ws_handleMessage \<lparr>ws = Some OPEN, ws_requestId = 7, ws_authenticated = True, ws_pending = [(7, 3)]\<rparr>
       \<lparr>Identifier = Some 7, Message = Some ''ok'', Type = None\<rparr>
     = (\<lparr>ws = Some OPEN, ws_requestId = 7, ws_authenticated = True, ws_pending = []\<rparr>,
        [Emit (Response 7 ''ok''), Resolve 3 ''ok''])
   \<and> ws_handleMessage \<lparr>ws = Some OPEN, ws_requestId = 7, ws_authenticated = True, ws_pending = [(7, 3)]\<rparr>
       \<lparr>Identifier = Some 42, Message = Some ''log line'', Type = Some ''Warning''\<rparr>
     = (\<lparr>ws = Some OPEN, ws_requestId = 7, ws_authenticated = True, ws_pending = [(7, 3)]\<rparr>,
        [Emit (ServerMessage ''log line'' ''Warning'')])"
  using ws_handleMessage_classification
    [of "\<lparr>ws = Some OPEN, ws_requestId = 7, ws_authenticated = True, ws_pending = [(7, 3)]\<rparr>"
        "\<lparr>Identifier = Some (- 1), Message = Some ''player joined'', Type = Some ''Generic''\<rparr>"]
    ws_handleMessage_classification
    [of "\<lparr>ws = Some OPEN, ws_requestId = 7, ws_authenticated = True, ws_pending = [(7, 3)]\<rparr>"
        "\<lparr>Identifier = Some 7, Message = Some ''ok'', Type = None\<rparr>"]
    ws_handleMessage_classification
    [of "\<lparr>ws = Some OPEN, ws_requestId = 7, ws_authenticated = True, ws_pending = [(7, 3)]\<rparr>"
        "\<lparr>Identifier = Some 42, Message = Some ''log line'', Type = Some ''Warning''\<rparr>"]
  by (simp add: map_get_def map_has_def map_delete_def or_string_def)


section \<open>Teardown of the JSON client\<close>

text \<open>
  A client without a socket and with an empty pending table stays so under every input,
  and an input settles at most the promise that it brings with it.
\<close>

lemma ws_step_idle:
  assumes "ws c = None" and "ws_pending c = []"
  shows "ws (fst (ws_step c i)) = None \<and> ws_pending (fst (ws_step c i)) = []
         \<and> (\<forall>e \<in> set (snd (ws_step c i)). settles p e \<longrightarrow> input_promise i = Some p)"
  using assms
  by (cases i)
    (auto simp add: ws_on_open_def ws_handleMessage_def ws_on_error_def ws_on_close_def
      ws_exec_def ws_connected_def ws_exec_timeout_def ws_destroy_def Let_def
      split: option.splits)

lemma ws_run_idle:
  assumes "ws c = None" and "ws_pending c = []"
    and "\<forall>i \<in> set is. input_promise i \<noteq> Some p"
  shows "\<forall>e \<in> set (snd (ws_run c is)). \<not> settles p e"
  using assms
proof (induction "is" arbitrary: c)
  case Nil
  then show ?case by simp
next
  case (Cons i "is")
  have idle: "ws (fst (ws_step c i)) = None" "ws_pending (fst (ws_step c i)) = []"
    and step: "\<forall>e \<in> set (snd (ws_step c i)). settles p e \<longrightarrow> input_promise i = Some p"
    using ws_step_idle [OF Cons.prems(1,2), of i p] by simp_all
  from Cons.prems(3) have "input_promise i \<noteq> Some p"
    by simp
  with step have now: "\<forall>e \<in> set (snd (ws_step c i)). \<not> settles p e"
    by blast
  have "\<forall>e \<in> set (snd (ws_run (fst (ws_step c i)) is)). \<not> settles p e"
    using idle Cons.prems(3) by (intro Cons.IH) simp_all
  with now show ?case
    by (auto simp add: split_beta)
qed

lemma filter_settles_rejects:
  assumes "distinct (map snd m)" and "p \<in> snd ` set m"
  shows "filter (settles p) (map (\<lambda>kp. Reject (snd kp) err) m) = [Reject p err]"
  using assms
proof (induction m)
  case Nil
  then show ?case by simp
next
  case (Cons kp m)
  show ?case
  proof (cases "snd kp = p")
    case True
    with Cons.prems(1) have "p \<notin> snd ` set m"
      by auto
    then have "filter (settles p) (map (\<lambda>kp. Reject (snd kp) err) m) = []"
      by (induction m) auto
    with True show ?thesis
      by simp
  next
    case False
    with Cons show ?thesis
      by auto
  qed
qed

text \<open>
  C5. When the socket of an authenticated JSON client closes, the close handler emits
  \<open>close\<close>, rejects the promise of every entry of the pending table with
  \<^verbatim>\<open>Connection closed\<close> and leaves the table empty. Each of these promises is settled
  exactly once: by that rejection, and by nothing that happens afterwards to the closed
  client, which is not connected again (socket events, calls of exec and destroy, the
  timers of the commands).
\<close>

theorem ws_close_rejects_pending:
  assumes "ws_authenticated c"
    and "distinct (map snd (ws_pending c))"
    and "\<forall>i \<in> set later. \<forall>p \<in> snd ` set (ws_pending c). input_promise i \<noteq> Some p"
  shows "let (c1, es) = ws_on_close c cp code
         in es = [ClearTimeout cp, Emit CloseEvent]
                 @ map (\<lambda>kp. Reject (snd kp) (Error ''Connection closed'')) (ws_pending c)
            \<and> ws_pending c1 = []
            \<and> (\<forall>p \<in> snd ` set (ws_pending c).
                  filter (settles p) (es @ snd (ws_run c1 later))
                  = [Reject p (Error ''Connection closed'')])"
proof -
  let ?c1 = "fst (ws_on_close c cp code)"
  let ?es = "snd (ws_on_close c cp code)"
  let ?rejects = "map (\<lambda>kp. Reject (snd kp) (Error ''Connection closed'')) (ws_pending c)"
  have es: "?es = [ClearTimeout cp, Emit CloseEvent] @ ?rejects"
    using assms(1) by (simp add: ws_on_close_def Let_def split_beta)
  have idle: "ws ?c1 = None" "ws_pending ?c1 = []"
    by (simp_all add: ws_on_close_def Let_def)
  have once: "filter (settles p) (?es @ snd (ws_run ?c1 later)) = [Reject p (Error ''Connection closed'')]"
    if p: "p \<in> snd ` set (ws_pending c)" for p
  proof -
    have "\<forall>i \<in> set later. input_promise i \<noteq> Some p"
      using assms(3) p by blast
    then have "\<forall>e \<in> set (snd (ws_run ?c1 later)). \<not> settles p e"
      using idle by (intro ws_run_idle)
    then have "filter (settles p) (snd (ws_run ?c1 later)) = []"
      by (simp add: filter_empty_conv)
    moreover have "filter (settles p) ?rejects = [Reject p (Error ''Connection closed'')]"
      using assms(2) p by (rule filter_settles_rejects)
    ultimately show ?thesis
      by (simp add: es)
  qed
  show ?thesis
    using es idle once by (simp add: split_beta)
qed

theorem ws_close_rejects_pending_witness:
  "snd (ws_on_close \<lparr>ws = Some OPEN, ws_requestId = 8, ws_authenticated = True,
                     ws_pending = [(7, 3), (8, 4)]\<rparr> 0 ''1006'')
     = [ClearTimeout 0, Emit CloseEvent,
        Reject 3 (Error ''Connection closed''), Reject 4 (Error ''Connection closed'')]
   \<and> filter (settles 3)
        (snd (ws_on_close \<lparr>ws = Some OPEN, ws_requestId = 8, ws_authenticated = True,
                           ws_pending = [(7, 3), (8, 4)]\<rparr> 0 ''1006'')
         @ snd (ws_run (fst (ws_on_close \<lparr>ws = Some OPEN, ws_requestId = 8, ws_authenticated = True,
                                          ws_pending = [(7, 3), (8, 4)]\<rparr> 0 ''1006''))
                  [InTimeout 7 3, InTimeout 8 4, InExec 5 ''status'']))
     = [Reject 3 (Error ''Connection closed'')]"
  using ws_close_rejects_pending
    [of "\<lparr>ws = Some OPEN, ws_requestId = 8, ws_authenticated = True, ws_pending = [(7, 3), (8, 4)]\<rparr>"
        "[InTimeout 7 3, InTimeout 8 4, InExec 5 ''status'']" 0 "''1006''"]
  by (simp add: split_beta ws_on_close_def ws_exec_timeout_def ws_exec_def ws_connected_def
      Let_def)


section \<open>A destroyed JSON client\<close>

lemma ws_run_calls_append:
  "ws_run_calls c (xs @ ys) =
     (let (c1, es1) = ws_run_calls c xs;
          (c2, es2) = ws_run_calls c1 ys
      in (c2, es1 @ es2))"
  by (induction xs arbitrary: c) (simp_all add: split_beta)

lemma map_has_map_set: "map_has k (map_set k v m)"
  by (induction m) (auto simp add: map_has_def)

lemma map_delete_keeps_out:
  "a \<notin> fst ` set m \<Longrightarrow> a \<notin> fst ` set (map_delete k m)"
  "b \<notin> snd ` set m \<Longrightarrow> b \<notin> snd ` set (map_delete k m)"
  by (auto simp add: map_delete_def)

text \<open>
  While the identifier and the promise of a command are not in the pending table, a call
  that neither brings the promise nor is given the identifier leaves both out of the
  table and does not settle the promise.
\<close>

lemma ws_call_step_keeps_out:
  assumes out: "ident \<notin> fst ` set (ws_pending c)" "p \<notin> snd ` set (ws_pending c)"
    and fresh: "call_promise i \<noteq> Some p"
    and timer: "\<forall>k. i = Input (InTimeout k p) \<longrightarrow> k = ident"
    and issued: "ident \<notin> set (ws_issued c [i])"
  shows "ident \<notin> fst ` set (ws_pending (fst (ws_call_step c i)))
         \<and> p \<notin> snd ` set (ws_pending (fst (ws_call_step c i)))
         \<and> (\<forall>e \<in> set (snd (ws_call_step c i)). \<not> settles p e)"
proof (cases i)
  case (Connect cp url)
  then show ?thesis
    using out fresh by (simp add: ws_connect_def)
next
  case (ConnectTimeout cp address)
  then show ?thesis
    using out fresh by (simp add: ws_connect_timeout_def)
next
  case (Input j)
  show ?thesis
  proof (cases j)
    case (InOpen cp)
    then show ?thesis
      using Input out fresh by (simp add: ws_on_open_def)
  next
    case (InMessage msg)
    have sub: "ident \<notin> fst ` set (map_delete k (ws_pending c))"
      "p \<notin> snd ` set (map_delete k (ws_pending c))" for k
      using out by (simp_all add: map_delete_keeps_out)
    have "q \<noteq> p" if "map_get k (ws_pending c) = Some q" for k q
    proof -
      from that have "(k, q) \<in> set (ws_pending c)"
        by (simp add: map_get_def map_of_SomeD)
      then have "q \<in> snd ` set (ws_pending c)"
        by force
      with out(2) show ?thesis
        by blast
    qed
    then show ?thesis
      using Input InMessage out sub
      by (simp add: ws_handleMessage_def Let_def split: option.splits)
  next
    case (InError cp err)
    then show ?thesis
      using Input out fresh by (simp add: ws_on_error_def)
  next
    case (InClose cp code)
    have "\<forall>e \<in> set (map (\<lambda>(k, q). Reject q (Error ''Connection closed'')) (ws_pending c)).
            \<not> settles p e"
      using out(2) by force
    then show ?thesis
      using Input InClose fresh by (auto simp add: ws_on_close_def Let_def)
  next
    case (InExec q command)
    show ?thesis
    proof (cases "ws_connected c")
      case True
      with Input InExec issued have new: "snd (ws_nextId c) \<noteq> ident"
        by simp
      have sub: "set (map_set (snd (ws_nextId c)) q (ws_pending c))
                 \<subseteq> insert (snd (ws_nextId c), q) (set (ws_pending c))"
        by (rule set_map_set)
      from Input InExec fresh have "q \<noteq> p"
        by simp
      with new sub out have
        "ident \<notin> fst ` set (map_set (snd (ws_nextId c)) q (ws_pending c))"
        "p \<notin> snd ` set (map_set (snd (ws_nextId c)) q (ws_pending c))"
        by force+
      then show ?thesis
        using Input InExec True by (simp add: ws_exec_def ws_nextId_def Let_def)
    next
      case False
      then show ?thesis
        using Input InExec out fresh by (simp add: ws_exec_def)
    qed
  next
    case (InTimeout k q)
    have sub: "ident \<notin> fst ` set (map_delete k (ws_pending c))"
      "p \<notin> snd ` set (map_delete k (ws_pending c))"
      using out by (simp_all add: map_delete_keeps_out)
    have "q \<noteq> p" if "map_has k (ws_pending c)"
    proof
      assume "q = p"
      with timer Input InTimeout have "k = ident"
        by simp
      with that out(1) show False
        by (simp add: map_has_iff)
    qed
    then show ?thesis
      using Input InTimeout out sub by (simp add: ws_exec_timeout_def)
  next
    case InDestroy
    then show ?thesis
      using Input by (simp add: ws_destroy_def)
  qed
qed

lemma ws_run_calls_keeps_out:
  assumes "ident \<notin> fst ` set (ws_pending c)" and "p \<notin> snd ` set (ws_pending c)"
    and "\<forall>i \<in> set later. call_promise i \<noteq> Some p"
    and "\<forall>k. Input (InTimeout k p) \<in> set later \<longrightarrow> k = ident"
    and "ident \<notin> set (ws_issued c later)"
  shows "\<forall>e \<in> set (snd (ws_run_calls c later)). \<not> settles p e"
  using assms
proof (induction later arbitrary: c)
  case Nil
  then show ?case
    by simp
next
  case (Cons i later)
  have one: "ws_issued c [i] @ ws_issued (fst (ws_call_step c i)) later = ws_issued c (i # later)"
    by simp
  from Cons.prems(5) have now: "ident \<notin> set (ws_issued c [i])"
    and rest: "ident \<notin> set (ws_issued (fst (ws_call_step c i)) later)"
    unfolding one [symmetric] by simp_all
  have step: "ident \<notin> fst ` set (ws_pending (fst (ws_call_step c i)))
         \<and> p \<notin> snd ` set (ws_pending (fst (ws_call_step c i)))
         \<and> (\<forall>e \<in> set (snd (ws_call_step c i)). \<not> settles p e)"
    using Cons.prems(1,2) _ _ now
  proof (rule ws_call_step_keeps_out)
    show "call_promise i \<noteq> Some p"
      using Cons.prems(3) by simp
    show "\<forall>k. i = Input (InTimeout k p) \<longrightarrow> k = ident"
      using Cons.prems(4) by simp
  qed
  have "\<forall>e \<in> set (snd (ws_run_calls (fst (ws_call_step c i)) later)). \<not> settles p e"
  proof (rule Cons.IH)
    show "ident \<notin> fst ` set (ws_pending (fst (ws_call_step c i)))"
      and "p \<notin> snd ` set (ws_pending (fst (ws_call_step c i)))"
      using step by simp_all
    show "\<forall>i \<in> set later. call_promise i \<noteq> Some p"
      using Cons.prems(3) by simp
    show "\<forall>k. Input (InTimeout k p) \<in> set later \<longrightarrow> k = ident"
      using Cons.prems(4) by simp
    show "ident \<notin> set (ws_issued (fst (ws_call_step c i)) later)"
      by (rule rest)
  qed
  with step show ?case
    by (auto simp add: split_beta)
qed

text \<open>A client that is not connected again after \<open>ws_destroy\<close> is given no identifier.\<close>

lemma ws_issued_without_connect:
  assumes "ws c = None" and "ws_pending c = []"
  shows "ws_issued c (map Input later) = []"
  using assms
proof (induction later arbitrary: c)
  case Nil
  then show ?case
    by simp
next
  case (Cons i later)
  have "ws (fst (ws_step c i)) = None" and "ws_pending (fst (ws_step c i)) = []"
    using ws_step_idle [OF Cons.prems, of i 0] by simp_all
  then have "ws_issued (fst (ws_step c i)) (map Input later) = []"
    by (rule Cons.IH)
  moreover have "\<not> ws_connected c"
    using Cons.prems(1) by (simp add: ws_connected_def)
  ultimately show ?case
    by (cases i) simp_all
qed


text \<open>
  C10. \<open>ws_destroy\<close> empties the pending table and calls no resolver and no rejecter; the
  callback of a command's timer does nothing when the command's identifier is not in the
  table. So the promise of a command that was pending when \<open>ws_destroy\<close> ran is settled by
  nothing that happens afterwards to a client that is not connected again (socket events,
  calls of exec and destroy, timers); and when the client is connected again, by nothing
  as long as no later call of exec is given the command's identifier.
\<close>

theorem ws_destroy_unsettled_unless_reissued:
  assumes "(ident, p) \<in> set (ws_pending c)"
    and "\<forall>i \<in> set later. call_promise i \<noteq> Some p"
    and "\<forall>k. Input (InTimeout k p) \<in> set later \<longrightarrow> k = ident"
    and "ident \<notin> set (ws_issued (fst (ws_destroy c)) later)"
  shows "let (c1, es) = ws_destroy c
         in (\<forall>e \<in> set es. \<forall>q. \<not> settles q e)
            \<and> ws_pending c1 = []
            \<and> (\<forall>c' ident' p'. \<not> map_has ident' (ws_pending c') \<longrightarrow>
                  ws_exec_timeout c' ident' p' = (c', []))
            \<and> ws_exec_timeout c1 ident p = (c1, [])
            \<and> (\<forall>inputs. (\<forall>i \<in> set inputs. input_promise i \<noteq> Some p) \<longrightarrow>
                  (\<forall>e \<in> set (snd (ws_run c1 inputs)). \<not> settles p e))
            \<and> (\<forall>e \<in> set (snd (ws_run_calls c1 later)). \<not> settles p e)"
proof -
  let ?c1 = "fst (ws_destroy c)"
  have idle: "ws ?c1 = None" "ws_pending ?c1 = []"
    by (simp_all add: ws_destroy_def)
  have quiet: "\<forall>e \<in> set (snd (ws_destroy c)). \<forall>q. \<not> settles q e"
    by (simp add: ws_destroy_def)
  have absent: "\<forall>c' ident' p'. \<not> map_has ident' (ws_pending c') \<longrightarrow>
                  ws_exec_timeout c' ident' p' = (c', [])"
    by (simp add: ws_exec_timeout_def)
  have own: "ws_exec_timeout ?c1 ident p = (?c1, [])"
    using idle by (simp add: ws_exec_timeout_def)
  have alone: "\<forall>inputs. (\<forall>i \<in> set inputs. input_promise i \<noteq> Some p) \<longrightarrow>
                  (\<forall>e \<in> set (snd (ws_run ?c1 inputs)). \<not> settles p e)"
    using idle by (intro allI impI ws_run_idle)
  have again: "\<forall>e \<in> set (snd (ws_run_calls ?c1 later)). \<not> settles p e"
  proof (rule ws_run_calls_keeps_out)
    show "ident \<notin> fst ` set (ws_pending ?c1)" and "p \<notin> snd ` set (ws_pending ?c1)"
      using idle by simp_all
    show "\<forall>i \<in> set later. call_promise i \<noteq> Some p"
      by (rule assms(2))
    show "\<forall>k. Input (InTimeout k p) \<in> set later \<longrightarrow> k = ident"
      by (rule assms(3))
    show "ident \<notin> set (ws_issued ?c1 later)"
      by (rule assms(4))
  qed
  show ?thesis
    using quiet idle absent own alone again by (simp add: split_beta)
qed

theorem ws_destroy_unsettled_unless_reissued_witness:
  "ws_destroy \<lparr>ws = Some OPEN, ws_requestId = 7, ws_authenticated = True, ws_pending = [(7, 3)]\<rparr>
     = (\<lparr>ws = None, ws_requestId = 7, ws_authenticated = False, ws_pending = []\<rparr>, [WsTerminate])
   \<and> ws_issued \<lparr>ws = None, ws_requestId = 7, ws_authenticated = False, ws_pending = []\<rparr>
         [Connect 1 ''ws://127.0.0.1:28016/secret'', Input (InOpen 1),
          Input (InExec 4 ''status''), Input (InTimeout 7 3),
          Input (InMessage \<lparr>Identifier = Some 8, Message = Some ''ok'', Type = None\<rparr>)]
     = [8]
   \<and> snd (ws_run_calls \<lparr>ws = None, ws_requestId = 7, ws_authenticated = False, ws_pending = []\<rparr>
         [Connect 1 ''ws://127.0.0.1:28016/secret'', Input (InOpen 1),
          Input (InExec 4 ''status''), Input (InTimeout 7 3),
          Input (InMessage \<lparr>Identifier = Some 8, Message = Some ''ok'', Type = None\<rparr>)])
     = [SetConnectTimeout 1, WsCreate ''ws://127.0.0.1:28016/secret'',
        ClearTimeout 1, Emit Authenticated, ResolveVoid 1,
        WsSend 8 ''status'' ''rcon-htmx'', SetTimeout 8 4,
        Emit (Response 8 ''ok''), Resolve 4 ''ok'']
   \<and> filter (settles 3)
       (snd (ws_run_calls \<lparr>ws = None, ws_requestId = 7, ws_authenticated = False, ws_pending = []\<rparr>
         [Connect 1 ''ws://127.0.0.1:28016/secret'', Input (InOpen 1),
          Input (InExec 4 ''status''), Input (InTimeout 7 3),
          Input (InMessage \<lparr>Identifier = Some 8, Message = Some ''ok'', Type = None\<rparr>)]))
     = []"
proof -
  let ?c0 = "\<lparr>ws = Some OPEN, ws_requestId = 7, ws_authenticated = True, ws_pending = [(7, 3)]\<rparr>"
  let ?c1 = "\<lparr>ws = None, ws_requestId = 7, ws_authenticated = False, ws_pending = []\<rparr>"
  let ?later = "[Connect 1 ''ws://127.0.0.1:28016/secret'', Input (InOpen 1),
          Input (InExec 4 ''status''), Input (InTimeout 7 3),
          Input (InMessage \<lparr>Identifier = Some 8, Message = Some ''ok'', Type = None\<rparr>)]"
  have d: "ws_destroy ?c0 = (?c1, [WsTerminate])"
    by (simp add: ws_destroy_def)
  have issued: "ws_issued ?c1 ?later = [8]"
    by (simp add: ws_connect_def ws_connected_def ws_on_open_def ws_nextId_def)
  have run: "snd (ws_run_calls ?c1 ?later)
     = [SetConnectTimeout 1, WsCreate ''ws://127.0.0.1:28016/secret'',
        ClearTimeout 1, Emit Authenticated, ResolveVoid 1,
        WsSend 8 ''status'' ''rcon-htmx'', SetTimeout 8 4,
        Emit (Response 8 ''ok''), Resolve 4 ''ok'']"
    by (simp add: ws_connect_def ws_connected_def ws_on_open_def ws_exec_def ws_nextId_def
        ws_exec_timeout_def ws_handleMessage_def map_has_def map_get_def map_delete_def
        or_string_def Let_def)
  have h1: "(7, 3) \<in> set (ws_pending ?c0)"
    by simp
  have h2: "\<forall>i \<in> set ?later. call_promise i \<noteq> Some 3"
    by simp
  have h3: "\<forall>k. Input (InTimeout k 3) \<in> set ?later \<longrightarrow> k = 7"
    by simp
  have h4: "7 \<notin> set (ws_issued (fst (ws_destroy ?c0)) ?later)"
    by (simp only: d fst_conv issued) simp
  have "\<forall>e \<in> set (snd (ws_run_calls (fst (ws_destroy ?c0)) ?later)). \<not> settles 3 e"
    using ws_destroy_unsettled_unless_reissued [OF h1 h2 h3 h4]
    by (simp only: Let_def split_beta) blast
  then have "filter (settles 3) (snd (ws_run_calls ?c1 ?later)) = []"
    by (simp only: d fst_conv filter_empty_conv)
  with d issued run show ?thesis
    by (simp only: simp_thms)
qed

text \<open>
  Calls of \<open>ws_exec\<close> in a row on an open client count the request identifier on, modulo
  9000; the last identifier is in the pending table, and no promise is settled.
\<close>

lemma fresh_execs_run:
  assumes "ws c = Some OPEN"
  shows "ws (fst (ws_run_calls c (fresh_execs n p command))) = Some OPEN
         \<and> (\<forall>e \<in> set (snd (ws_run_calls c (fresh_execs n p command))). \<forall>q. \<not> settles q e)
         \<and> (0 < n \<longrightarrow>
               ws_requestId (fst (ws_run_calls c (fresh_execs n p command)))
                 = (ws_requestId c + n - 1) mod 9000 + 1
               \<and> map_has (int ((ws_requestId c + n - 1) mod 9000 + 1))
                    (ws_pending (fst (ws_run_calls c (fresh_execs n p command)))))"
  using assms
proof (induction n arbitrary: c p)
  case 0
  then show ?case
    by simp
next
  case (Suc n)
  let ?r = "ws_requestId c mod 9000 + 1"
  let ?c1 = "c\<lparr>ws_requestId := ?r, ws_pending := map_set (int ?r) p (ws_pending c)\<rparr>"
  have step: "ws_step c (InExec p command)
              = (?c1, [WsSend (int ?r) command ''rcon-htmx'', SetTimeout (int ?r) p])"
    using Suc.prems by (simp add: ws_exec_def ws_connected_def ws_nextId_def Let_def)
  have open1: "ws ?c1 = Some OPEN"
    using Suc.prems by simp
  note IH = Suc.IH [OF open1, of "Suc p"]
  have has1: "map_has (int ?r) (ws_pending ?c1)"
    by (simp add: map_has_map_set)
  show ?case
  proof (cases n)
    case 0
    then show ?thesis
      using step open1 has1 by simp
  next
    case (Suc m)
    then have pos: "0 < n"
      by simp
    have "(?r + n - 1) mod 9000 = (ws_requestId c + Suc n - 1) mod 9000"
      by (simp add: mod_add_left_eq)
    moreover have "ws_requestId ?c1 = ?r"
      by simp
    ultimately show ?thesis
      using step IH pos by (simp add: split_beta)
  qed
qed

text \<open>
  A client destroyed while command 7 is pending, connected again, and asked for 9000 more
  commands before the timer of command 7 fires: the identifier 7 is given out again, the
  timer finds it in the table, and the promise of the command pending at the moment of
  \<open>ws_destroy\<close> is resolved.
\<close>

theorem ws_destroy_reissued_identifier_counterexample:
  "filter (settles 3)
     (snd (ws_run_calls
        (fst (ws_destroy \<lparr>ws = Some OPEN, ws_requestId = 7, ws_authenticated = True,
                          ws_pending = [(7, 3)]\<rparr>))
        ([Connect 1 ''ws://127.0.0.1:28016/secret'', Input (InOpen 1)]
         @ fresh_execs 9000 4 ''status''
         @ [Input (InTimeout 7 3)])))
   = [Resolve 3 (''(no response '' @ [CHR 0xE2, CHR 0x80, CHR 0x94] @ '' timed out)'')]"
proof -
  let ?c1 = "\<lparr>ws = None, ws_requestId = 7, ws_authenticated = False, ws_pending = []\<rparr>"
  let ?c3 = "\<lparr>ws = Some OPEN, ws_requestId = 7, ws_authenticated = True, ws_pending = []\<rparr>"
  define execs where "execs = fresh_execs 9000 4 ''status''"
  define c4 where "c4 = fst (ws_run_calls ?c3 execs)"
  define es4 where "es4 = snd (ws_run_calls ?c3 execs)"
  have run: "ws_run_calls ?c3 execs = (c4, es4)"
    by (simp only: c4_def es4_def prod.collapse)
  have d: "fst (ws_destroy \<lparr>ws = Some OPEN, ws_requestId = 7, ws_authenticated = True,
                            ws_pending = [(7, 3)]\<rparr>) = ?c1"
    by (simp add: ws_destroy_def)
  have reopen: "ws_run_calls ?c1 [Connect 1 ''ws://127.0.0.1:28016/secret'', Input (InOpen 1)]
      = (?c3, [SetConnectTimeout 1, WsCreate ''ws://127.0.0.1:28016/secret'',
               ClearTimeout 1, Emit Authenticated, ResolveVoid 1])"
    by (simp add: ws_connect_def ws_connected_def ws_on_open_def)
  have c3_open: "ws ?c3 = Some OPEN"
    by simp
  have last_id: "int ((ws_requestId ?c3 + 9000 - 1) mod 9000 + 1) = 7"
    by simp
  have pos: "(0::nat) < 9000"
    by simp
  note facts = fresh_execs_run [OF c3_open, of 9000 4 "''status''", folded execs_def c4_def es4_def]
  from facts have quiet: "\<forall>e \<in> set es4. \<forall>q. \<not> settles q e"
    by (rule conjunct2 [THEN conjunct1])
  from facts pos have "map_has (int ((ws_requestId ?c3 + 9000 - 1) mod 9000 + 1)) (ws_pending c4)"
    by blast
  then have has: "map_has 7 (ws_pending c4)"
    by (simp only: last_id)
  from quiet have none: "filter (settles 3) es4 = []"
    by (simp add: filter_empty_conv)
  have timer: "ws_run_calls c4 [Input (InTimeout 7 3)]
      = (c4\<lparr>ws_pending := map_delete 7 (ws_pending c4)\<rparr>,
         [Resolve 3 (''(no response '' @ [CHR 0xE2, CHR 0x80, CHR 0x94] @ '' timed out)'')])"
    using has by (simp add: ws_exec_timeout_def timed_out_placeholder_def em_dash_def)
  have "snd (ws_run_calls ?c1
          ([Connect 1 ''ws://127.0.0.1:28016/secret'', Input (InOpen 1)]
           @ execs @ [Input (InTimeout 7 3)]))
        = [SetConnectTimeout 1, WsCreate ''ws://127.0.0.1:28016/secret'',
           ClearTimeout 1, Emit Authenticated, ResolveVoid 1]
          @ es4
          @ [Resolve 3 (''(no response '' @ [CHR 0xE2, CHR 0x80, CHR 0x94] @ '' timed out)'')]"
    by (simp only: ws_run_calls_append reopen run timer Let_def prod.case snd_conv)
  then have "filter (settles 3)
      (snd (ws_run_calls ?c1
          ([Connect 1 ''ws://127.0.0.1:28016/secret'', Input (InOpen 1)]
           @ execs @ [Input (InTimeout 7 3)])))
      = [Resolve 3 (''(no response '' @ [CHR 0xE2, CHR 0x80, CHR 0x94] @ '' timed out)'')]"
    by (simp add: none)
  then show ?thesis
    by (simp only: d execs_def)
qed


section \<open>Properties of the default formatter\<close>

lemma replace_all_append:
  "replace_all c r (a @ b) = replace_all c r a @ replace_all c r b"
  by (simp add: replace_all_def)

lemma escapeHtml_Nil: "escapeHtml [] = []"
  by (simp add: escapeHtml_def replace_all_def)

lemma escapeHtml_single:
  \<open>escapeHtml [x] =
     (if x = CHR ''&'' then ''&amp;''
      else if x = CHR ''<'' then ''&lt;''
      else if x = CHR ''>'' then ''&gt;''
      else if x = CHR 0x22 then ''&quot;''
      else [x])\<close>
  by (simp add: escapeHtml_def replace_all_def)

lemma escapeHtml_append: "escapeHtml (a @ b) = escapeHtml a @ escapeHtml b"
  by (simp add: escapeHtml_def replace_all_append)

lemma escapeHtml_Cons: "escapeHtml (x # xs) = escapeHtml [x] @ escapeHtml xs"
  using escapeHtml_append [of "[x]" xs] by simp

lemma escapeHtml_no_markup:
  \<open>CHR ''<'' \<notin> set (escapeHtml s) \<and> CHR ''>'' \<notin> set (escapeHtml s)
   \<and> CHR 0x22 \<notin> set (escapeHtml s)\<close>
proof (induction s)
  case Nil
  then show ?case
    by (simp add: escapeHtml_Nil)
next
  case (Cons x xs)
  then show ?case
    by (subst (1 2 3) escapeHtml_Cons) (simp add: escapeHtml_single)
qed

lemma escapeHtml_entities_only: "entities_only (escapeHtml s)"
proof (induction s)
  case Nil
  then show ?case
    by (simp add: escapeHtml_Nil)
next
  case (Cons x xs)
  then show ?case
    by (subst escapeHtml_Cons) (simp add: escapeHtml_single is_prefix_def)
qed

text \<open>
  C9. The result of \<open>escapeHtml\<close> contains no \<^verbatim>\<open><\<close>, no \<^verbatim>\<open>>\<close> and no double quote, and
  each \<^verbatim>\<open>&\<close> in it begins one of the four entities. The default formatter (no custom
  \<open>formatLine\<close>) puts the text arguments of \<open>error\<close>, \<open>info\<close>, \<open>serverMessage\<close> and
  \<open>response\<close> (the message, the text line by line, the command) into its fixed markup only
  through \<open>escapeHtml\<close>.
\<close>

theorem escapeHtml_escapes_fragment_text:
  \<open>CHR ''<'' \<notin> set (escapeHtml s) \<and> CHR ''>'' \<notin> set (escapeHtml s)
   \<and> CHR 0x22 \<notin> set (escapeHtml s)
   \<and> entities_only (escapeHtml s)
   \<and> (formatLine opts = None \<longrightarrow>
        fmt_error opts time s =
          wrap opts (''<div class="rcon-error"><span class="rcon-error-icon">!</span> ''
                     @ escapeHtml s @ ''</div>'')
        \<and> fmt_info opts time s =
            wrap opts (''<div class="rcon-info">'' @ escapeHtml s @ ''</div>'')
        \<and> (\<exists>typeClass \<in> {''rcon-warn'', ''rcon-error'', ''rcon-server''}.
              fmt_serverMessage opts time s type =
                wrap opts (''<div class="'' @ typeClass @ ''"><span class="rcon-time">'' @ time
                           @ ''</span> '' @ escapeHtml s @ ''</div>''))
        \<and> fmt_response opts time s command =
            wrap opts
              (''<div class="rcon-response"><div class="rcon-meta"><span class="rcon-cmd">&gt; ''
               @ escapeHtml command
               @ ''</span><span class="rcon-time">'' @ time
               @ ''</span></div><div class="rcon-body">''
               @ (if filter (\<lambda>l. l \<noteq> []) (split_on newline s) = []
                  then ''<span class="rcon-empty">(no output)</span>''
                  else concat (map (\<lambda>line. ''<span class="rcon-line">'' @ escapeHtml line
                                              @ ''</span>'')
                                 (filter (\<lambda>l. l \<noteq> []) (split_on newline s))))
               @ ''</div></div>''))\<close>
proof (intro conjI impI)
  assume d: "formatLine opts = None"
  show \<open>fmt_error opts time s =
          wrap opts (''<div class="rcon-error"><span class="rcon-error-icon">!</span> ''
                     @ escapeHtml s @ ''</div>'')\<close>
    using d by (simp add: fmt_error_def)
  show \<open>fmt_info opts time s =
            wrap opts (''<div class="rcon-info">'' @ escapeHtml s @ ''</div>'')\<close>
    using d by (simp add: fmt_info_def)
  show \<open>\<exists>typeClass \<in> {''rcon-warn'', ''rcon-error'', ''rcon-server''}.
              fmt_serverMessage opts time s type =
                wrap opts (''<div class="'' @ typeClass @ ''"><span class="rcon-time">'' @ time
                           @ ''</span> '' @ escapeHtml s @ ''</div>'')\<close>
    using d by (simp add: fmt_serverMessage_def Let_def)
  have \<open>concat (map (\<lambda>line. ''<span class="rcon-line">'' @ escapeHtml line @ ''</span>'') ls) = []
        \<longleftrightarrow> ls = []\<close> for ls :: "string list"
    by (cases ls) simp_all
  then show \<open>fmt_response opts time s command =
            wrap opts
              (''<div class="rcon-response"><div class="rcon-meta"><span class="rcon-cmd">&gt; ''
               @ escapeHtml command
               @ ''</span><span class="rcon-time">'' @ time
               @ ''</span></div><div class="rcon-body">''
               @ (if filter (\<lambda>l. l \<noteq> []) (split_on newline s) = []
                  then ''<span class="rcon-empty">(no output)</span>''
                  else concat (map (\<lambda>line. ''<span class="rcon-line">'' @ escapeHtml line
                                              @ ''</span>'')
                                 (filter (\<lambda>l. l \<noteq> []) (split_on newline s))))
               @ ''</div></div>'')\<close>
    using d by (simp add: fmt_response_def Let_def)
qed (simp_all add: escapeHtml_no_markup escapeHtml_entities_only)


theorem escapeHtml_escapes_fragment_text_witness:
  \<open>escapeHtml ''<a href="x">&</a>'' = ''&lt;a href=&quot;x&quot;&gt;&amp;&lt;/a&gt;''
   \<and> entities_only (escapeHtml ''<a href="x">&</a>'')
   \<and> fmt_error \<lparr>targetId = None, swapStyle = None, formatLine = None\<rparr> ''12:00'' ''<a href="x">&</a>''
       = ''<div id="rcon-output" hx-swap-oob="beforeend"><div class="rcon-error"><span class="rcon-error-icon">!</span> &lt;a href=&quot;x&quot;&gt;&amp;&lt;/a&gt;</div></div>''\<close>
  using escapeHtml_escapes_fragment_text
    [of \<open>''<a href="x">&</a>''\<close> "\<lparr>targetId = None, swapStyle = None, formatLine = None\<rparr>" "''12:00''"]
  by (simp add: escapeHtml_def replace_all_def wrap_def or_string_def)

section \<open>Properties of the session bridge\<close>

lemma strip_leading_Nil: "strip_leading seqs [] = []"
proof -
  have "find (\<lambda>w. w \<noteq> [] \<and> is_prefix w []) seqs = None"
    by (auto simp add: find_None_iff is_prefix_def)
  then show ?thesis
    by (subst strip_leading.simps) simp
qed

lemma trim_Nil: "trim [] = []"
  by (simp only: trim_def strip_leading_Nil rev.simps)

lemma on_message_Some:
  assumes "data \<noteq> JNull"
  shows "on_message cfg sess (Some data) connect_outcome exec_outcome =
     (if authMode cfg = ClientAuth \<and> \<not> sess_authenticated sess then
        (if truthy_val (normalized_auth data) then
           (case normalized_auth data of
              None \<Rightarrow> Inl TypeError
            | Some a \<Rightarrow> Inr (client_auth cfg sess a connect_outcome))
         else Inr (sess, safeSend sess (FError (not_authenticated_message cfg))))
      else
        (case command_of data of
           Inl e \<Rightarrow> Inl e
         | Inr command \<Rightarrow> Inr (run_command cfg sess command exec_outcome)))"
  using assms by (cases data) (simp_all add: on_message_def Let_def)

lemma on_message_JNull:
  "on_message cfg sess (Some JNull) connect_outcome exec_outcome = Inl TypeError"
  by (simp add: on_message_def)

lemma safeSend_no_close: "BrowserClose \<notin> set (safeSend sess frag)"
  by (simp add: safeSend_def)

text \<open>
  C7. A browser message that is not JSON is answered with the error fragment
  \<^verbatim>\<open>Invalid message format.\<close>. A parsed message other than \<^verbatim>\<open>null\<close> that has none of the
  properties \<^verbatim>\<open>auth\<close>, \<^verbatim>\<open>auth.host\<close>, \<^verbatim>\<open>auth.password\<close> and \<^verbatim>\<open>command\<close> (a JSON
  object of unknown shape) is answered with the error fragment \<^verbatim>\<open>Empty command.\<close>, or, in
  client auth mode before authentication, with the instruction to authenticate. In both
  cases the session is unchanged and the browser socket is not closed.
\<close>

theorem on_message_not_json_or_unknown_shape:
  "on_message cfg sess None connect_outcome exec_outcome
     = Inr (sess, safeSend sess (FError ''Invalid message format.''))
   \<and> (data \<noteq> JNull
       \<and> (\<forall>k \<in> {''auth'', ''auth.host'', ''auth.password'', ''command''}. get_prop data k = None) \<longrightarrow>
        on_message cfg sess (Some data) connect_outcome exec_outcome
          = Inr (sess, safeSend sess
                   (FError (if authMode cfg = ClientAuth \<and> \<not> sess_authenticated sess
                            then not_authenticated_message cfg
                            else ''Empty command.''))))
   \<and> BrowserClose \<notin> set (safeSend sess frag)
   \<and> (browser_open sess \<longrightarrow> safeSend sess frag = [BrowserSend frag])"
proof (intro conjI impI)
  show "on_message cfg sess None connect_outcome exec_outcome
     = Inr (sess, safeSend sess (FError ''Invalid message format.''))"
    by (simp add: on_message_def)
next
  assume a: "data \<noteq> JNull
       \<and> (\<forall>k \<in> {''auth'', ''auth.host'', ''auth.password'', ''command''}. get_prop data k = None)"
  then have absent: "get_prop data ''auth'' = None"
      "get_prop data ''auth.host'' = None"
      "get_prop data ''auth.password'' = None"
      "get_prop data ''command'' = None"
    by simp_all
  then have auth: "normalized_auth data = None"
    by (simp add: normalized_auth_def truthy_val_def not_nullish_def)
  have cmd: "command_of data = Inr []"
    using absent by (simp add: command_of_def truthy_val_def trim_Nil)
  from a have "data \<noteq> JNull"
    by simp
  then show "on_message cfg sess (Some data) connect_outcome exec_outcome
          = Inr (sess, safeSend sess
                   (FError (if authMode cfg = ClientAuth \<and> \<not> sess_authenticated sess
                            then not_authenticated_message cfg
                            else ''Empty command.'')))"
    by (simp add: on_message_Some auth cmd truthy_val_def run_command_def)
next
  show "BrowserClose \<notin> set (safeSend sess frag)"
    by (rule safeSend_no_close)
next
  assume "browser_open sess"
  then show "safeSend sess frag = [BrowserSend frag]"
    by (simp add: safeSend_def)
qed

theorem on_message_not_json_or_unknown_shape_witness:
  "on_message \<lparr>protocol = RustProtocol, host = None, port = Some (JNum 28016), password = None,
               authMode = ClientAuth, onConnect = False, onCommand = None\<rparr>
     \<lparr>browser_open = True, sess_authenticated = False, rcon = None\<rparr>
     (Some (JObj [(''foo'', JNum 1)])) None (Inr [])
   = Inr (\<lparr>browser_open = True, sess_authenticated = False, rcon = None\<rparr>,
          [BrowserSend (FError (not_authenticated_message
             \<lparr>protocol = RustProtocol, host = None, port = Some (JNum 28016), password = None,
              authMode = ClientAuth, onConnect = False, onCommand = None\<rparr>))])"
  using on_message_not_json_or_unknown_shape
    [of "\<lparr>protocol = RustProtocol, host = None, port = Some (JNum 28016), password = None,
          authMode = ClientAuth, onConnect = False, onCommand = None\<rparr>"
        "\<lparr>browser_open = True, sess_authenticated = False, rcon = None\<rparr>"
        None "Inr []" "JObj [(''foo'', JNum 1)]"
        "FError (not_authenticated_message
             \<lparr>protocol = RustProtocol, host = None, port = Some (JNum 28016), password = None,
              authMode = ClientAuth, onConnect = False, onCommand = None\<rparr>)"]
  by simp

text \<open>
  A JSON object of unknown shape sent to an authenticated session: the reply is the error
  fragment \<^verbatim>\<open>Empty command.\<close>, not \<^verbatim>\<open>Invalid message format.\<close>.
\<close>

theorem on_message_unknown_shape_counterexample:
  "on_message \<lparr>protocol = SourceProtocol, host = Some (JStr ''127.0.0.1''),
               port = Some (JNum 27015), password = Some (JStr ''secret''),
               authMode = ServerAuth, onConnect = False, onCommand = None\<rparr>
     \<lparr>browser_open = True, sess_authenticated = True, rcon = Some True\<rparr>
     (Some (JObj [(''foo'', JNum 1)])) None (Inr [])
   = Inr (\<lparr>browser_open = True, sess_authenticated = True, rcon = Some True\<rparr>,
          [BrowserSend (FError ''Empty command.'')])
   \<and> FError ''Empty command.'' \<noteq> FError ''Invalid message format.''"
  by (simp add: on_message_def normalized_auth_def truthy_val_def not_nullish_def
      command_of_def trim_Nil run_command_def safeSend_def)

text \<open>
  C8. When the configured \<open>onCommand\<close> filter returns \<^verbatim>\<open>false\<close> for a command, the
  command pipeline replies with the error fragment \<^verbatim>\<open>Command blocked: ...\<close> and does
  nothing else; and whatever the state of the session, the handler of a message that
  carries this command neither calls \<open>exec\<close> nor sends a response fragment.
\<close>

theorem blocked_command_not_executed:
  assumes "onCommand cfg = Some filter_fn" and "command \<noteq> []"
    and "filter_fn command = Some False"
  shows "run_command cfg sess command exec_outcome
           = (sess, safeSend sess (FError (''Command blocked: '' @ command)))
       \<and> (browser_open sess \<longrightarrow>
             snd (run_command cfg sess command exec_outcome)
               = [BrowserSend (FError (''Command blocked: '' @ command))])
       \<and> (\<forall>data r. command_of data = Inr command
                     \<and> on_message cfg sess (Some data) connect_outcome exec_outcome = Inr r \<longrightarrow>
             (\<forall>e \<in> set (snd r). (\<forall>cmd. e \<noteq> RconExec cmd)
                                  \<and> (\<forall>response cmd. e \<noteq> BrowserSend (FResponse response cmd))))
       \<and> (\<forall>data. data \<noteq> JNull \<and> command_of data = Inr command
                   \<and> \<not> (authMode cfg = ClientAuth \<and> \<not> sess_authenticated sess) \<longrightarrow>
             on_message cfg sess (Some data) connect_outcome exec_outcome
               = Inr (sess, safeSend sess (FError (''Command blocked: '' @ command))))"
proof -
  have blocked: "run_command cfg sess command exec_outcome
           = (sess, safeSend sess (FError (''Command blocked: '' @ command)))"
    using assms by (simp add: run_command_def)
  have quiet: "\<forall>e \<in> set (safeSend sess (FError m)).
      (\<forall>cmd. e \<noteq> RconExec cmd) \<and> (\<forall>response cmd. e \<noteq> BrowserSend (FResponse response cmd))" for m
    by (simp add: safeSend_def)
  have auth_quiet: "\<forall>e \<in> set (snd (client_auth cfg sess a connect_outcome)).
      (\<forall>cmd. e \<noteq> RconExec cmd) \<and> (\<forall>response cmd. e \<noteq> BrowserSend (FResponse response cmd))" for a
    by (auto simp add: client_auth_def Let_def safeSend_def split: option.splits)
  have msg: "\<forall>e \<in> set (snd r). (\<forall>cmd. e \<noteq> RconExec cmd)
                                  \<and> (\<forall>response cmd. e \<noteq> BrowserSend (FResponse response cmd))"
    if c: "command_of data = Inr command"
      and r: "on_message cfg sess (Some data) connect_outcome exec_outcome = Inr r" for data r
  proof -
    from r have nn: "data \<noteq> JNull"
      by (auto simp add: on_message_JNull)
    show ?thesis
    proof (cases "authMode cfg = ClientAuth \<and> \<not> sess_authenticated sess")
      case True
      show ?thesis
      proof (cases "truthy_val (normalized_auth data)")
        case t: True
        then obtain a where "normalized_auth data = Some a"
          by (auto simp add: truthy_val_def split: option.splits)
        with True t r have "r = client_auth cfg sess a connect_outcome"
          by (simp add: on_message_Some [OF nn])
        then show ?thesis
          using auth_quiet by simp
      next
        case f: False
        with True r have "r = (sess, safeSend sess (FError (not_authenticated_message cfg)))"
          by (simp add: on_message_Some [OF nn])
        then show ?thesis
          using quiet by simp
      qed
    next
      case False
      with r c blocked have "r = (sess, safeSend sess (FError (''Command blocked: '' @ command)))"
        by (simp add: on_message_Some [OF nn])
      then show ?thesis
        using quiet by simp
    qed
  qed
  have pipeline: "on_message cfg sess (Some data) connect_outcome exec_outcome
               = Inr (sess, safeSend sess (FError (''Command blocked: '' @ command)))"
    if "data \<noteq> JNull" and "command_of data = Inr command"
      and "\<not> (authMode cfg = ClientAuth \<and> \<not> sess_authenticated sess)" for data
    using that blocked by (auto simp add: on_message_Some)
  show ?thesis
  proof (intro conjI allI impI)
    show "run_command cfg sess command exec_outcome
           = (sess, safeSend sess (FError (''Command blocked: '' @ command)))"
      by (rule blocked)
  next
    assume "browser_open sess"
    then show "snd (run_command cfg sess command exec_outcome)
               = [BrowserSend (FError (''Command blocked: '' @ command))]"
      using blocked by (simp add: safeSend_def)
  next
    fix data r
    assume "command_of data = Inr command
            \<and> on_message cfg sess (Some data) connect_outcome exec_outcome = Inr r"
    then show "\<forall>e \<in> set (snd r). (\<forall>cmd. e \<noteq> RconExec cmd)
                                  \<and> (\<forall>response cmd. e \<noteq> BrowserSend (FResponse response cmd))"
      using msg by blast
  next
    fix data
    assume "data \<noteq> JNull \<and> command_of data = Inr command
            \<and> \<not> (authMode cfg = ClientAuth \<and> \<not> sess_authenticated sess)"
    then show "on_message cfg sess (Some data) connect_outcome exec_outcome
               = Inr (sess, safeSend sess (FError (''Command blocked: '' @ command)))"
      using pipeline by blast
  qed
qed


theorem blocked_command_not_executed_witness:
  "on_message
     \<lparr>protocol = SourceProtocol, host = Some (JStr ''127.0.0.1''), port = Some (JNum 27015),
      password = Some (JStr ''secret''), authMode = ServerAuth, onConnect = False,
      onCommand = Some (\<lambda>c. if is_prefix ''quit'' c then Some False else None)\<rparr>
     \<lparr>browser_open = True, sess_authenticated = True, rcon = Some True\<rparr>
     (Some (JObj [(''command'', JStr '' quit '')])) None (Inr ''bye'')
   = Inr (\<lparr>browser_open = True, sess_authenticated = True, rcon = Some True\<rparr>,
          [BrowserSend (FError ''Command blocked: quit'')])"
proof -
  have t: "trim '' quit '' = ''quit''"
    by code_simp
  have c: "command_of (JObj [(''command'', JStr '' quit '')]) = Inr ''quit''"
    by (simp add: command_of_def truthy_val_def t)
  show ?thesis
    using blocked_command_not_executed
      [of "\<lparr>protocol = SourceProtocol, host = Some (JStr ''127.0.0.1''), port = Some (JNum 27015),
            password = Some (JStr ''secret''), authMode = ServerAuth, onConnect = False,
            onCommand = Some (\<lambda>c. if is_prefix ''quit'' c then Some False else None)\<rparr>"
          "\<lambda>c. if is_prefix ''quit'' c then Some False else None" "''quit''"
          "\<lparr>browser_open = True, sess_authenticated = True, rcon = Some True\<rparr>"
          "Inr ''bye''" None]
      c
    by (simp add: is_prefix_def safeSend_def)
qed

end
